theory Spec2Isabelle
  imports Complex_Main "HOL-Library.AList"
begin

section \<open>Python values\<close>

text \<open>
  The repository is Python: agent metadata, tool parameters and session contexts are
  JSON-shaped values held in dictionaries. A dictionary is an association list with
  distinct keys, in insertion order (the order in which Python iterates it). Python's
  \<open>int\<close> and \<open>float\<close> are both read as real numbers: the model computes with exact
  arithmetic where the interpreter rounds to binary64.
\<close>

datatype pyval =
    PNone
  | PBool bool
  | PNum real
  | PStr string
  | PList "pyval list"
  | PDict "(string \<times> pyval) list"

type_synonym pydict = "(string \<times> pyval) list"

type_synonym timestamp = real

text \<open>\<open>isinstance(v, dict)\<close>.\<close>

fun is_dict :: "pyval \<Rightarrow> bool" where
  "is_dict (PDict d) = True"
| "is_dict v = False"

text \<open>
  The operand of an arithmetic operator (\<open>*\<close>, \<open>/\<close>, \<open>-\<close> against a number): numbers
  and booleans compute, every other value raises \<open>TypeError\<close> in the expressions of
  this repository (\<open>None\<close>).
\<close>

fun py_number :: "pyval \<Rightarrow> real option" where
  "py_number (PNum r) = Some r"
| "py_number (PBool b) = Some (if b then 1 else 0)"
| "py_number v = None"

text \<open>
  \<open>float(v)\<close>: a number or a boolean converts, a string is parsed (the parser of the
  interpreter is the parameter \<open>str_float\<close>, \<open>None\<close> where it raises \<open>ValueError\<close>),
  every other value raises \<open>TypeError\<close> (\<open>None\<close>).
\<close>

fun py_float :: "(string \<Rightarrow> real option) \<Rightarrow> pyval \<Rightarrow> real option" where
  "py_float str_float (PStr s) = str_float s"
| "py_float str_float v = py_number v"

section \<open>Tools: \<open>src/tools/base.py\<close>\<close>

record ToolMetrics =
  execution_time :: real
  success_rate :: real
  last_execution :: "timestamp option"
  total_executions :: int
  failed_executions :: int

text \<open>\<open>ToolMetrics()\<close>: the defaults of the dataclass.\<close>

definition new_metrics :: ToolMetrics where
  "new_metrics = \<lparr>execution_time = 0, success_rate = 0, last_execution = None,
     total_executions = 0, failed_executions = 0\<rparr>"

record ToolContext =
  intent :: pyval
  confidence :: real
  entities :: pyval
  metadata :: pyval
  chain_context :: "pyval option"

record ToolResult =
  success :: bool
  data :: pyval
  next_tools :: "string list"
  error_message :: "string option"

text \<open>
  A tool instance. The two abstract methods are fields: \<open>can_handle\<close> returns a
  confidence or raises (\<open>None\<close>), \<open>execute_impl\<close> returns the result dictionary or
  raises an exception with a message (\<open>Inl\<close>). \<open>compatible_versions\<close> is a Python list,
  a mutable object that a class and its instances share: the field holds the address of
  the list in a store of lists.
\<close>

type_synonym ref = nat

type_synonym list_store = "ref \<Rightarrow> string list"

record Tool =
  name :: string
  description :: string
  required_params :: "string list"
  version :: string
  compatible_versions :: ref
  metrics :: ToolMetrics
  can_handle :: "ToolContext \<Rightarrow> real option"
  execute_impl :: "pyval \<Rightarrow> ToolContext \<Rightarrow> string + pyval"

text \<open>
  The \<open>except\<close> branch of \<open>Tool.execute\<close>: one more failed execution, the success
  rate recomputed, the exception's message returned as data.
\<close>

definition execute_failed :: "Tool \<Rightarrow> string \<Rightarrow> ToolResult \<times> Tool" where
  "execute_failed tool msg =
     (let m = metrics tool;
          m1 = m\<lparr>failed_executions := failed_executions m + 1\<rparr>;
          m2 = m1\<lparr>success_rate :=
                 real_of_int (total_executions m1 - failed_executions m1)
                   / real_of_int (max (total_executions m1) 1)\<rparr>
      in (\<lparr>success = False, data = PDict [], next_tools = [], error_message = Some msg\<rparr>,
          tool\<lparr>metrics := m2\<rparr>))"

text \<open>
  \<open>Tool.execute(params, context)\<close>. \<open>elapsed\<close> is \<open>time.time() - start_time\<close> and
  \<open>now\<close> is \<open>datetime.now()\<close>. The counter is incremented before the \<open>try\<close>. A
  division by a counter that is zero raises \<open>ZeroDivisionError\<close> inside the \<open>try\<close>,
  before any assignment, and is handled by the same \<open>except\<close> branch.
\<close>

definition execute :: "Tool \<Rightarrow> pyval \<Rightarrow> ToolContext \<Rightarrow> real \<Rightarrow> timestamp \<Rightarrow> ToolResult \<times> Tool" where
  "execute tool params context elapsed now =
     (let m = metrics tool;
          m1 = m\<lparr>total_executions := total_executions m + 1\<rparr>;
          tool1 = tool\<lparr>metrics := m1\<rparr>
      in case execute_impl tool params context of
           Inl msg \<Rightarrow> execute_failed tool1 msg
         | Inr result \<Rightarrow>
             if total_executions m1 = 0 then execute_failed tool1 ''float division by zero''
             else
               (let m2 = m1\<lparr>execution_time :=
                           (execution_time m1 * real_of_int (total_executions m1 - 1) + elapsed)
                             / real_of_int (total_executions m1)\<rparr>;
                    m3 = m2\<lparr>last_execution := Some now\<rparr>;
                    m4 = m3\<lparr>success_rate :=
                           real_of_int (total_executions m3 - failed_executions m3)
                             / real_of_int (total_executions m3)\<rparr>
                in (\<lparr>success = True, data = result, next_tools = [], error_message = None\<rparr>,
                    tool1\<lparr>metrics := m4\<rparr>)))"

text \<open>\<open>Tool.validate_params(params)\<close>.\<close>

definition validate_params :: "Tool \<Rightarrow> pyval \<Rightarrow> bool" where
  "validate_params tool params =
     (case params of
        PDict d \<Rightarrow> list_all (\<lambda>param. param \<in> fst ` set d) (required_params tool)
      | _ \<Rightarrow> False)"

text \<open>
  \<open>d.get(key, default)\<close> on a dictionary.
\<close>

definition dict_get :: "pydict \<Rightarrow> string \<Rightarrow> pyval \<Rightarrow> pyval" where
  "dict_get d key dflt = (case map_of d key of None \<Rightarrow> dflt | Some v \<Rightarrow> v)"

datatype error =
    NoCapableAgents string
  | NoActiveAgents string
  | InvalidMetrics string
  | NotRegistered string
  | ValueError string

text \<open>
  A tool class is given by its class attributes and its two methods; \<open>tool_class()\<close>
  runs \<open>Tool.__init__\<close>, which rejects an empty name and gives the instance fresh
  metrics. An instance reads \<open>name\<close>, \<open>version\<close> and \<open>compatible_versions\<close> from
  its class, so it holds the address of the class's list, not a copy.
\<close>

type_synonym ToolClass = Tool

definition instantiate :: "ToolClass \<Rightarrow> error + Tool" where
  "instantiate tool_class =
     (if name tool_class = [] then Inl (ValueError ''Tool must have a name'')
      else Inr (tool_class\<lparr>metrics := new_metrics\<rparr>))"

record ToolRegistry =
  tools :: "(string \<times> Tool) list"
  version_history :: "(string \<times> string list) list"
  chain_definitions :: "(string \<times> (string \<times> real) list) list"

text \<open>\<open>ToolRegistry()\<close>.\<close>

definition new_registry :: ToolRegistry where
  "new_registry = \<lparr>tools = [], version_history = [], chain_definitions = []\<rparr>"

text \<open>
  \<open>ToolRegistry.register(tool_class)\<close>, on the registry and the store of lists. When
  a tool of that name is registered with another version, the old version string is
  appended to the list that \<open>self._tools[tool.name].compatible_versions\<close> denotes: the
  list of the tool registered so far. Then the entry is overwritten with the new tool.
\<close>

definition register :: "ToolRegistry \<Rightarrow> list_store \<Rightarrow> ToolClass \<Rightarrow> error + (ToolRegistry \<times> list_store)" where
  "register reg store tool_class =
     (case instantiate tool_class of
        Inl e \<Rightarrow> Inl e
      | Inr tool \<Rightarrow>
          (let store1 =
                 (case map_of (tools reg) (name tool) of
                    None \<Rightarrow> store
                  | Some registered \<Rightarrow>
                      (let current_version = version registered
                       in if current_version \<noteq> version tool
                          then store(compatible_versions registered :=
                                 store (compatible_versions registered) @ [current_version])
                          else store));
               reg1 = reg\<lparr>tools := AList.update (name tool) tool (tools reg)\<rparr>;
               history = (case map_of (version_history reg1) (name tool) of
                            None \<Rightarrow> [] | Some vs \<Rightarrow> vs);
               reg2 = reg1\<lparr>version_history :=
                        AList.update (name tool) (history @ [version tool]) (version_history reg1)\<rparr>
           in Inr (reg2, store1)))"

text \<open>
  The \<open>ToolContext\<close> that \<open>select_tool\<close> builds from its context dictionary.
  \<open>float(context.get('confidence', 0.0))\<close> may raise; the outer \<open>except\<close> of
  \<open>select_tool\<close> then returns \<open>None\<close>.
\<close>

definition make_tool_context :: "(string \<Rightarrow> real option) \<Rightarrow> pydict \<Rightarrow> ToolContext option" where
  "make_tool_context str_float context =
     (case py_float str_float (dict_get context ''confidence'' (PNum 0)) of
        None \<Rightarrow> None
      | Some c \<Rightarrow>
          Some \<lparr>intent = dict_get context ''intent'' (PStr []),
                confidence = c,
                entities = dict_get context ''entities'' (PDict []),
                metadata = dict_get context ''metadata'' (PDict []),
                chain_context = None\<rparr>)"

text \<open>
  \<open>confidence * (0.8 + 0.2 * tool.metrics.success_rate)\<close>, \<open>None\<close> when
  \<open>can_handle\<close> raises.
\<close>

definition adjusted_confidence :: "Tool \<Rightarrow> ToolContext \<Rightarrow> real option" where
  "adjusted_confidence tool tool_context =
     (case can_handle tool tool_context of
        None \<Rightarrow> None
      | Some c \<Rightarrow> Some (c * (0.8 + 0.2 * success_rate (metrics tool))))"

text \<open>
  The loop of \<open>select_tool\<close> over \<open>self._tools.values()\<close>, on the pair
  \<open>(best_tool, best_confidence)\<close>. A tool whose \<open>can_handle\<close> raises is logged and
  skipped (\<open>continue\<close>).
\<close>

fun select_loop :: "ToolContext \<Rightarrow> real \<Rightarrow> Tool list \<Rightarrow> Tool option \<times> real \<Rightarrow> Tool option \<times> real" where
  "select_loop tool_context min_confidence [] best = best"
| "select_loop tool_context min_confidence (tool # rest) (best_tool, best_confidence) =
     (case adjusted_confidence tool tool_context of
        None \<Rightarrow> select_loop tool_context min_confidence rest (best_tool, best_confidence)
      | Some adjusted \<Rightarrow>
          if adjusted > best_confidence \<and> adjusted \<ge> min_confidence
          then select_loop tool_context min_confidence rest (Some tool, adjusted)
          else select_loop tool_context min_confidence rest (best_tool, best_confidence))"

text \<open>\<open>ToolRegistry.select_tool(context, min_confidence)\<close>.\<close>

definition select_tool :: "(string \<Rightarrow> real option) \<Rightarrow> ToolRegistry \<Rightarrow> pydict \<Rightarrow> real \<Rightarrow> Tool option" where
  "select_tool str_float reg context min_confidence =
     (case make_tool_context str_float context of
        None \<Rightarrow> None
      | Some tool_context \<Rightarrow>
          fst (select_loop tool_context min_confidence (map snd (tools reg)) (None, 0)))"

section \<open>Agent catalog and decision engine: \<open>src/agents/registry.py\<close>, \<open>src/routing/decision_maker.py\<close>\<close>

text \<open>
  The metadata of an agent is a dictionary. Its keys are the fields of a record, each
  \<open>None\<close> when the key is absent. \<open>capabilities\<close> and \<open>status\<close> have the types
  that \<open>register_agent\<close> documents; \<open>performance\<close> and \<open>load\<close> hold any value, since
  the decision engine converts them itself and handles what does not convert.
\<close>

record AgentRecord =
  capabilities :: "string list option"
  status :: "string option"
  performance :: "pyval option"
  load :: "pyval option"
  registered_at :: "timestamp option"
  last_updated :: "timestamp option"
  last_selected :: "timestamp option"
  current_task :: "string option"

text \<open>The catalog \<open>self._agents\<close>: a dictionary from agent name to metadata.\<close>

record AgentRegistry =
  agents :: "(string \<times> AgentRecord) list"

text \<open>
  \<open>AgentRegistry.update_agent(agent_name, metadata)\<close>; the function \<open>changes\<close> is
  \<open>dict.update(metadata)\<close> on the stored record.
\<close>

definition update_agent :: "AgentRegistry \<Rightarrow> string \<Rightarrow> (AgentRecord \<Rightarrow> AgentRecord) \<Rightarrow> timestamp
    \<Rightarrow> error + AgentRegistry" where
  "update_agent reg agent_name changes now =
     (case map_of (agents reg) agent_name of
        None \<Rightarrow> Inl (NotRegistered agent_name)
      | Some md \<Rightarrow>
          Inr (reg\<lparr>agents :=
                 AList.update agent_name ((changes md)\<lparr>last_updated := Some now\<rparr>) (agents reg)\<rparr>))"

text \<open>The weights that \<open>DecisionMaker.__init__\<close> sets.\<close>

definition weight_performance :: real where
  "weight_performance = 0.6"

definition weight_load :: real where
  "weight_load = 0.4"

text \<open>
  The body of the \<open>try\<close> in \<open>get_load_metrics\<close> for one agent, \<open>None\<close> when it
  raises. Without a \<open>load\<close> key the load is derived from the performance block, where
  \<open>metadata.get("performance", {})\<close> must be a dictionary to have \<open>.get\<close>, and
  \<open>request_count\<close> and \<open>response_time_ms\<close> default to 0 and 100.
\<close>

definition derived_load :: "pydict \<Rightarrow> real option" where
  "derived_load perf =
     (case (py_number (dict_get perf ''request_count'' (PNum 0)),
            py_number (dict_get perf ''response_time_ms'' (PNum 100))) of
        (Some recent_requests, Some avg_response_time) \<Rightarrow>
          Some (min 1 ((recent_requests * avg_response_time) / 10000))
      | _ \<Rightarrow> None)"

definition agent_load :: "(string \<Rightarrow> real option) \<Rightarrow> AgentRecord \<Rightarrow> real option" where
  "agent_load str_float md =
     (case load md of
        Some v \<Rightarrow> py_float str_float v
      | None \<Rightarrow>
          (case performance md of
             None \<Rightarrow> derived_load []
           | Some (PDict perf) \<Rightarrow> derived_load perf
           | Some v \<Rightarrow> None))"

text \<open>
  The body of the \<open>try\<close> in \<open>get_performance_metrics\<close> for one agent. A performance
  block that is a dictionary (the default \<open>{}\<close> too) must have \<open>success_rate\<close>; any
  other value is converted itself, \<open>None\<close> counting as 0.
\<close>

definition agent_performance :: "(string \<Rightarrow> real option) \<Rightarrow> AgentRecord \<Rightarrow> real option" where
  "agent_performance str_float md =
     (case performance md of
        None \<Rightarrow> None
      | Some (PDict perf) \<Rightarrow>
          (case map_of perf ''success_rate'' of
             None \<Rightarrow> None
           | Some v \<Rightarrow> py_float str_float v)
      | Some PNone \<Rightarrow> Some 0
      | Some v \<Rightarrow> py_float str_float v)"

text \<open>
  The loop of both functions over \<open>agents_data.items()\<close>: the metric of each agent is
  stored under its name, and the first agent whose metric raises aborts the loop with
  \<open>RuntimeError("Invalid metrics for agent ...")\<close>.
\<close>

fun metrics_loop :: "(AgentRecord \<Rightarrow> real option) \<Rightarrow> (string \<times> AgentRecord) list
    \<Rightarrow> (string \<times> real) list \<Rightarrow> error + (string \<times> real) list" where
  "metrics_loop metric [] acc = Inr acc"
| "metrics_loop metric ((agent_id, md) # rest) acc =
     (case metric md of
        None \<Rightarrow> Inl (InvalidMetrics agent_id)
      | Some v \<Rightarrow> metrics_loop metric rest (AList.update agent_id v acc))"

definition get_load_metrics :: "(string \<Rightarrow> real option) \<Rightarrow> AgentRegistry
    \<Rightarrow> error + (string \<times> real) list" where
  "get_load_metrics str_float reg = metrics_loop (agent_load str_float) (agents reg) []"

definition get_performance_metrics :: "(string \<Rightarrow> real option) \<Rightarrow> AgentRegistry
    \<Rightarrow> error + (string \<times> real) list" where
  "get_performance_metrics str_float reg =
     metrics_loop (agent_performance str_float) (agents reg) []"

text \<open>\<open>required_capability in metadata.get("capabilities", [])\<close>.\<close>

definition has_capability :: "string \<Rightarrow> AgentRecord \<Rightarrow> bool" where
  "has_capability required_capability md =
     (required_capability \<in> set (case capabilities md of None \<Rightarrow> [] | Some cs \<Rightarrow> cs))"

text \<open>
  \<open>get_candidate_agents\<close>: the two lists that the loop fills, in the order of the
  catalog, and the two errors.
\<close>

definition get_candidate_agents :: "AgentRegistry \<Rightarrow> string \<Rightarrow> error + string list" where
  "get_candidate_agents reg required_capability =
     (let all_candidates =
            map fst (filter (\<lambda>(agent_id, md). has_capability required_capability md) (agents reg));
          active_candidates =
            map fst (filter (\<lambda>(agent_id, md). has_capability required_capability md
                               \<and> status md = Some ''active'') (agents reg))
      in if all_candidates = [] then Inl (NoCapableAgents required_capability)
         else if active_candidates = [] then Inl (NoActiveAgents required_capability)
         else Inr active_candidates)"

text \<open>\<open>calculate_agent_score\<close>, with the defaults of its two \<open>.get\<close>.\<close>

definition metric_get :: "(string \<times> real) list \<Rightarrow> string \<Rightarrow> real \<Rightarrow> real" where
  "metric_get m agent_id dflt = (case map_of m agent_id of None \<Rightarrow> dflt | Some v \<Rightarrow> v)"

definition calculate_agent_score :: "string \<Rightarrow> (string \<times> real) list \<Rightarrow> (string \<times> real) list \<Rightarrow> real" where
  "calculate_agent_score agent_id load_metrics performance_metrics =
     (let load = metric_get load_metrics agent_id 1;
          performance = metric_get performance_metrics agent_id 0.5
      in (weight_performance * performance) + (weight_load * (1 - load)))"

text \<open>
  \<open>max(items, key=lambda x: x[1])\<close>: Python keeps the first item and replaces it only
  by an item whose key is strictly greater; on an empty sequence it raises.
\<close>

definition keep_max :: "string \<times> real \<Rightarrow> string \<times> real \<Rightarrow> string \<times> real" where
  "keep_max item best = (if snd item > snd best then item else best)"

fun max_by_score :: "(string \<times> real) list \<Rightarrow> (string \<times> real) option" where
  "max_by_score [] = None"
| "max_by_score (item # items) = Some (fold keep_max items item)"

text \<open>
  \<open>DecisionMaker.route_task(required_capability)\<close>, returning the selected agent and
  the catalog after \<open>update_agent\<close>. The errors of the source are re-raised as they
  are. \<open>now\<close> is the clock, read for \<open>last_selected\<close> and, in \<open>update_agent\<close>,
  for \<open>last_updated\<close>.
\<close>

definition route_task :: "(string \<Rightarrow> real option) \<Rightarrow> AgentRegistry \<Rightarrow> string \<Rightarrow> timestamp
    \<Rightarrow> error + (string \<times> AgentRegistry)" where
  "route_task str_float reg required_capability now =
     (case get_candidate_agents reg required_capability of
        Inl e \<Rightarrow> Inl e
      | Inr candidates \<Rightarrow>
     (case get_load_metrics str_float reg of
        Inl e \<Rightarrow> Inl e
      | Inr load_metrics \<Rightarrow>
     (case get_performance_metrics str_float reg of
        Inl e \<Rightarrow> Inl e
      | Inr performance_metrics \<Rightarrow>
     (case find (\<lambda>agent_id. map_of load_metrics agent_id = None
                     \<or> map_of performance_metrics agent_id = None) candidates of
        Some agent_id \<Rightarrow> Inl (InvalidMetrics agent_id)
      | None \<Rightarrow>
          (let candidate_scores =
                 fold (\<lambda>agent_id scores.
                         AList.update agent_id
                           (calculate_agent_score agent_id load_metrics performance_metrics) scores)
                   candidates []
           in case max_by_score candidate_scores of
                None \<Rightarrow> Inl (ValueError ''max() arg is an empty sequence'')
              | Some (selected_agent, score) \<Rightarrow>
                  (case update_agent reg selected_agent
                          (\<lambda>md. md\<lparr>last_selected := Some now,
                                    current_task := Some required_capability\<rparr>) now of
                     Inl e \<Rightarrow> Inl e
                   | Inr reg' \<Rightarrow> Inr (selected_agent, reg')))))))"

section \<open>Session store: \<open>src/context/context_manager.py\<close>\<close>

text \<open>
  \<open>recursive_update(original, updates)\<close>: the loop over \<open>updates.items()\<close> on the
  dictionary \<open>original\<close>, which each step updates. The values are trees: no dictionary
  object occurs twice in them.
\<close>

fun recursive_update :: "pydict \<Rightarrow> pydict \<Rightarrow> pydict" where
  "recursive_update original [] = original"
| "recursive_update original ((key, value) # updates) =
     recursive_update
       (case (value, map_of original key) of
          (PDict u, Some (PDict orig)) \<Rightarrow> AList.update key (PDict (recursive_update orig u)) original
        | _ \<Rightarrow> AList.update key value original)
       updates"

text \<open>
  The in-memory store (\<open>USE_REDIS_CACHING\<close> off). A session is a dictionary with
  the special key \<open>_timestamp\<close>. An
  event listener is a callback, known by a name; \<open>delivered\<close> lists the calls made to the
  listeners, each with the session, the event type and the data it is given.
\<close>

type_synonym event = "string \<times> string \<times> string \<times> pyval"

record ContextManager =
  session_expiration :: real
  event_emission_enabled :: bool
  event_listeners :: "string list"
  context_store :: "(string \<times> pydict) list"
  delivered :: "event list"

text \<open>
  \<open>_emit_event\<close>: with event emission enabled every listener is called, in the order
  of registration; an exception of a listener is printed and the loop goes on.
\<close>

definition emit_event :: "ContextManager \<Rightarrow> string \<Rightarrow> string \<Rightarrow> pyval \<Rightarrow> ContextManager" where
  "emit_event cm session_id event_type event_data =
     (if event_emission_enabled cm
      then cm\<lparr>delivered := delivered cm
             @ map (\<lambda>callback. (callback, session_id, event_type, event_data)) (event_listeners cm)\<rparr>
      else cm)"

text \<open>
  The \<open>else\<close> branch of \<open>update_partial_context(session_id, partial_context)\<close>, on
  the in-memory store, with the event that the method emits after either branch;
  \<open>now\<close> is \<open>time.time()\<close>. A session that does not exist is created first. The
  call reads the clock once for the new session and once after the merge; both reads
  are \<open>now\<close>, and the second overwrites the first.
\<close>

definition update_in_memory :: "ContextManager \<Rightarrow> string \<Rightarrow> pydict \<Rightarrow> timestamp \<Rightarrow> ContextManager" where
  "update_in_memory cm session_id partial_context now =
     (let session = (case map_of (context_store cm) session_id of
                       None \<Rightarrow> [(''_timestamp'', PNum now)]
                     | Some context \<Rightarrow> context);
          session1 = recursive_update session partial_context;
          session2 = AList.update ''_timestamp'' (PNum now) session1;
          cm1 = cm\<lparr>context_store := AList.update session_id session2 (context_store cm)\<rparr>
      in emit_event cm1 session_id ''update_partial'' (PDict partial_context))"

text \<open>
  \<open>get_context(session_id)\<close> on the in-memory store (the \<open>else\<close> branch): the
  session, or the empty dictionary.
\<close>

definition get_context :: "ContextManager \<Rightarrow> string \<Rightarrow> pydict" where
  "get_context cm session_id =
     (case map_of (context_store cm) session_id of None \<Rightarrow> [] | Some context \<Rightarrow> context)"

text \<open>
  The Redis backend (\<open>USE_REDIS_CACHING\<close> on). The manager keeps its settings and
  listeners, and holds a client of the server instead of the in-memory store. The server
  keeps one hash per session: fields and values are byte strings, and \<open>hgetall\<close>
  returns them all. What \<open>hset\<close> stores for a Python value is decided by the client
  library, which is not part of the repository: it is the parameter \<open>encode\<close>,
  \<open>None\<close> for a value that the client refuses with an exception.
\<close>

type_synonym redis_hash = "(string \<times> string) list"

record RedisContextManager =
  manager :: ContextManager
  redis_client :: "(string \<times> redis_hash) list"

datatype redis_error = DataError

text \<open>\<open>redis_client.hgetall(name)\<close> and \<open>redis_client.hset(name, key, value)\<close>.\<close>

definition hgetall :: "(string \<times> redis_hash) list \<Rightarrow> string \<Rightarrow> redis_hash" where
  "hgetall server name' = (case map_of server name' of None \<Rightarrow> [] | Some h \<Rightarrow> h)"

definition hset :: "(pyval \<Rightarrow> string option) \<Rightarrow> (string \<times> redis_hash) list \<Rightarrow> string \<Rightarrow> string
    \<Rightarrow> pyval \<Rightarrow> (string \<times> redis_hash) list option" where
  "hset encode server name' field value =
     (case encode value of
        None \<Rightarrow> None
      | Some bytes \<Rightarrow> Some (AList.update name' (AList.update field bytes (hgetall server name')) server))"

text \<open>
  The \<open>if self.use_redis\<close> branch of \<open>get_context\<close>: every field of the hash, key
  and value decoded to \<open>str\<close>.
\<close>

definition redis_get_context :: "RedisContextManager \<Rightarrow> string \<Rightarrow> pydict" where
  "redis_get_context rcm session_id =
     map (\<lambda>(k, v). (k, PStr v)) (hgetall (redis_client rcm) session_id)"

text \<open>
  The loop \<open>for key, value in updated.items(): hset(session_id, key, value)\<close>. The
  first value that the client refuses raises; the fields written before it stay written.
\<close>

fun hset_items :: "(pyval \<Rightarrow> string option) \<Rightarrow> string \<Rightarrow> pydict \<Rightarrow> (string \<times> redis_hash) list
    \<Rightarrow> (string \<times> redis_hash) list \<times> redis_error option" where
  "hset_items encode session_id [] server = (server, None)"
| "hset_items encode session_id ((key, value) # items) server =
     (case hset encode server session_id key value of
        None \<Rightarrow> (server, Some DataError)
      | Some server' \<Rightarrow> hset_items encode session_id items server')"

text \<open>
  The \<open>if self.use_redis\<close> branch of \<open>update_partial_context\<close>, with the event
  emitted after it: the current context is read with \<open>get_context\<close>, updated with
  \<open>recursive_update\<close> and written back field by field, then the timestamp is
  written. The result is the manager after the call and the exception that left the
  method, if any.
\<close>

definition update_on_redis :: "(pyval \<Rightarrow> string option) \<Rightarrow> RedisContextManager \<Rightarrow> string \<Rightarrow> pydict
    \<Rightarrow> timestamp \<Rightarrow> RedisContextManager \<times> redis_error option" where
  "update_on_redis encode rcm session_id partial_context now =
     (let current = redis_get_context rcm session_id;
          updated = recursive_update current partial_context
      in case hset_items encode session_id updated (redis_client rcm) of
           (server, Some e) \<Rightarrow> (rcm\<lparr>redis_client := server\<rparr>, Some e)
         | (server, None) \<Rightarrow>
             (case hset encode server session_id ''_timestamp'' (PNum now) of
                None \<Rightarrow> (rcm\<lparr>redis_client := server\<rparr>, Some DataError)
              | Some server' \<Rightarrow>
                  (rcm\<lparr>redis_client := server',
                       manager := emit_event (manager rcm) session_id ''update_partial''
                                    (PDict partial_context)\<rparr>,
                   None)))"

text \<open>
  A context manager is built on one of the two backends (\<open>self.use_redis\<close> is set in
  \<open>__init__\<close> and never changes), and the two methods choose their branch by it.
\<close>

datatype SessionStore = InMemory ContextManager | Redis RedisContextManager

definition update_partial_context :: "(pyval \<Rightarrow> string option) \<Rightarrow> SessionStore \<Rightarrow> string \<Rightarrow> pydict
    \<Rightarrow> timestamp \<Rightarrow> SessionStore \<times> redis_error option" where
  "update_partial_context encode store session_id partial_context now =
     (case store of
        Redis rcm \<Rightarrow>
          (case update_on_redis encode rcm session_id partial_context now of
             (rcm', raised) \<Rightarrow> (Redis rcm', raised))
      | InMemory cm \<Rightarrow> (InMemory (update_in_memory cm session_id partial_context now), None))"

definition get_context_backend :: "SessionStore \<Rightarrow> string \<Rightarrow> pydict" where
  "get_context_backend store session_id =
     (case store of
        Redis rcm \<Rightarrow> redis_get_context rcm session_id
      | InMemory cm \<Rightarrow> get_context cm session_id)"

text \<open>
  One sweep of \<open>gc_worker\<close>, at the time \<open>now\<close>. The expired sessions are collected
  first, with \<open>now - context.get("_timestamp", now) > self.session_expiration\<close>; a
  timestamp that is not a number raises \<open>TypeError\<close> there, and the sweep deletes
  nothing (\<open>None\<close>). Then each expired session is deleted and its event emitted.
\<close>

definition session_expired :: "ContextManager \<Rightarrow> timestamp \<Rightarrow> pydict \<Rightarrow> bool option" where
  "session_expired cm now context =
     (case py_number (dict_get context ''_timestamp'' (PNum now)) of
        None \<Rightarrow> None
      | Some t \<Rightarrow> Some (now - t > session_expiration cm))"

fun expired_sessions :: "ContextManager \<Rightarrow> timestamp \<Rightarrow> (string \<times> pydict) list \<Rightarrow> string list option" where
  "expired_sessions cm now [] = Some []"
| "expired_sessions cm now ((session_id, context) # rest) =
     (case session_expired cm now context of
        None \<Rightarrow> None
      | Some expired \<Rightarrow>
          (case expired_sessions cm now rest of
             None \<Rightarrow> None
           | Some ids \<Rightarrow> Some (if expired then session_id # ids else ids)))"

fun collect_sessions :: "ContextManager \<Rightarrow> string list \<Rightarrow> ContextManager" where
  "collect_sessions cm [] = cm"
| "collect_sessions cm (session_id # rest) =
     collect_sessions
       (emit_event (cm\<lparr>context_store := AList.delete session_id (context_store cm)\<rparr>)
          session_id ''garbage_collected'' PNone)
       rest"

definition gc_sweep :: "ContextManager \<Rightarrow> timestamp \<Rightarrow> ContextManager option" where
  "gc_sweep cm now =
     (case expired_sessions cm now (context_store cm) of
        None \<Rightarrow> None
      | Some ids \<Rightarrow> Some (collect_sessions cm ids))"

text \<open>The calls to listeners that are about a given session.\<close>

definition event_of_session :: "string \<Rightarrow> event \<Rightarrow> bool" where
  "event_of_session session_id ev = (case ev of (callback, s, event_type, d) \<Rightarrow> s = session_id)"

section \<open>Tool discovery: \<open>src/tools/discovery.py\<close>\<close>

text \<open>
  The two documents of \<open>ToolDiscovery\<close>: the performance history, per tool and per
  intent, and the list of learned patterns. The statistics of a tool may come from a
  stored document without the key \<open>intent_patterns\<close> (\<open>None\<close>), as the one of
  \<open>test_load_existing_performance_history\<close>.
\<close>

record IntentStats =
  intent_count :: int
  intent_success_count :: int

record ToolStats =
  stats_success_count :: int
  stats_total_executions :: int
  avg_execution_time :: real
  intent_patterns :: "(string \<times> IntentStats) list option"

record ToolPattern =
  tool_name :: string
  pattern_intent :: string
  entities_present :: "string list"
  metadata_keys :: "string list"
  learned_at :: timestamp

record ToolDiscovery =
  performance_history :: "(string \<times> ToolStats) list"
  history_last_updated :: timestamp
  tool_patterns :: "ToolPattern list"
  patterns_last_updated :: timestamp

text \<open>
  The context dictionary of an execution: the intent label, a string, and the values
  under \<open>entities\<close> and \<open>metadata\<close>; each is \<open>None\<close> when the key is absent.
\<close>

record ExecutionContext =
  context_intent :: "string option"
  context_entities :: "pyval option"
  context_metadata :: "pyval option"

text \<open>
  \<open>list(context.get(key, {}).keys())\<close>: the keys of a dictionary; any other value
  has no \<open>.keys()\<close> and raises \<open>AttributeError\<close> (\<open>None\<close>).
\<close>

definition keys_of :: "pyval option \<Rightarrow> string list option" where
  "keys_of v =
     (case v of
        None \<Rightarrow> Some []
      | Some (PDict d) \<Rightarrow> Some (map fst d)
      | Some other \<Rightarrow> None)"

text \<open>\<open>context.get("intent", "unknown")\<close>.\<close>

definition intent_of :: "ExecutionContext \<Rightarrow> string" where
  "intent_of context = (case context_intent context of None \<Rightarrow> ''unknown'' | Some i \<Rightarrow> i)"

text \<open>
  The test of \<open>_learn_tool_pattern\<close> on a stored pattern \<open>p\<close>: the same tool name,
  the same intent and the same set of entity keys.
\<close>

definition pattern_matches :: "string \<Rightarrow> string \<Rightarrow> string list \<Rightarrow> ToolPattern \<Rightarrow> bool" where
  "pattern_matches name' intent' entity_keys p =
     (tool_name p = name' \<and> pattern_intent p = intent'
      \<and> set (entities_present p) = set entity_keys)"

text \<open>
  \<open>_learn_tool_pattern(tool_name, context)\<close>; \<open>now\<close> is the clock, read for
  \<open>learned_at\<close> and for \<open>last_updated\<close>. An exception in the \<open>try\<close> is logged
  and nothing is learned.
\<close>

definition learn_tool_pattern :: "ToolDiscovery \<Rightarrow> string \<Rightarrow> ExecutionContext \<Rightarrow> timestamp \<Rightarrow> ToolDiscovery" where
  "learn_tool_pattern disc name' context now =
     (case keys_of (context_entities context) of
        None \<Rightarrow> disc
      | Some entity_keys \<Rightarrow>
     (case keys_of (context_metadata context) of
        None \<Rightarrow> disc
      | Some meta_keys \<Rightarrow>
          (let new_pattern = \<lparr>tool_name = name', pattern_intent = intent_of context,
                 entities_present = entity_keys, metadata_keys = meta_keys, learned_at = now\<rparr>;
               pattern_exists =
                 list_ex (pattern_matches name' (pattern_intent new_pattern)
                            (entities_present new_pattern)) (tool_patterns disc)
           in if \<not> pattern_exists
              then disc\<lparr>tool_patterns := tool_patterns disc @ [new_pattern],
                        patterns_last_updated := now\<rparr>
              else disc)))"

text \<open>The statistics that \<open>record_tool_execution\<close> creates for a tool it has not seen.\<close>

definition new_stats :: ToolStats where
  "new_stats = \<lparr>stats_success_count = 0, stats_total_executions = 0, avg_execution_time = 0,
     intent_patterns = Some []\<rparr>"

text \<open>
  \<open>record_tool_execution(tool_name, context, success, execution_time)\<close>. The
  statistics are updated in place, so the counters keep their increments when a later
  statement raises: the division by a total of zero, or the missing key
  \<open>intent_patterns\<close>. The outer \<open>except\<close> logs the exception and the function
  returns, without learning.
\<close>

definition record_tool_execution :: "ToolDiscovery \<Rightarrow> string \<Rightarrow> ExecutionContext \<Rightarrow> bool \<Rightarrow> real
    \<Rightarrow> timestamp \<Rightarrow> ToolDiscovery" where
  "record_tool_execution disc name' context success' execution_time' now =
     (let tool_stats = (case map_of (performance_history disc) name' of
                          None \<Rightarrow> new_stats | Some s \<Rightarrow> s);
          stats1 = tool_stats\<lparr>stats_total_executions := stats_total_executions tool_stats + 1\<rparr>;
          stats2 = (if success'
                    then stats1\<lparr>stats_success_count := stats_success_count stats1 + 1\<rparr>
                    else stats1);
          store = (\<lambda>s. disc\<lparr>performance_history :=
                           AList.update name' s (performance_history disc)\<rparr>)
      in if stats_total_executions stats2 = 0 then store stats2
         else
           (let stats3 = stats2\<lparr>avg_execution_time :=
                   (avg_execution_time stats2 * real_of_int (stats_total_executions stats2 - 1)
                      + execution_time') / real_of_int (stats_total_executions stats2)\<rparr>
            in case intent_patterns stats3 of
                 None \<Rightarrow> store stats3
               | Some patterns \<Rightarrow>
                   (let intent' = intent_of context;
                        entry = (case map_of patterns intent' of
                                   None \<Rightarrow> \<lparr>intent_count = 0, intent_success_count = 0\<rparr>
                                 | Some e \<Rightarrow> e);
                        entry1 = entry\<lparr>intent_count := intent_count entry + 1\<rparr>;
                        entry2 = (if success'
                                  then entry1\<lparr>intent_success_count :=
                                         intent_success_count entry1 + 1\<rparr>
                                  else entry1);
                        stats4 = stats3\<lparr>intent_patterns :=
                                   Some (AList.update intent' entry2 patterns)\<rparr>;
                        disc1 = (store stats4)\<lparr>history_last_updated := now\<rparr>
                    in if success' then learn_tool_pattern disc1 name' context now
                       else disc1)))"

text \<open>Calls of \<open>record_tool_execution\<close> for one tool and one context, one after the other.\<close>

fun record_repeatedly :: "ToolDiscovery \<Rightarrow> string \<Rightarrow> ExecutionContext \<Rightarrow> (bool \<times> real \<times> timestamp) list
    \<Rightarrow> ToolDiscovery" where
  "record_repeatedly disc name' context [] = disc"
| "record_repeatedly disc name' context ((success', execution_time', now) # calls) =
     record_repeatedly (record_tool_execution disc name' context success' execution_time' now)
       name' context calls"

section \<open>Concrete inputs\<close>

text \<open>
  The tools of the repository's unit tests (\<open>tests/tools/unit/test_base.py\<close>) and
  small variants of them, used below to run the definitions.
\<close>

definition no_parse :: "string \<Rightarrow> real option" where
  "no_parse s = None"

definition demo_context :: ToolContext where
  "demo_context = \<lparr>intent = PStr ''test_intent'', confidence = 0.9, entities = PDict [],
     metadata = PDict [], chain_context = None\<rparr>"

definition demo_request :: pydict where
  "demo_request = [(''intent'', PStr ''test_intent''), (''confidence'', PNum 0.9),
     (''entities'', PDict [])]"

definition echo_impl :: "pyval \<Rightarrow> ToolContext \<Rightarrow> string + pyval" where
  "echo_impl params context = Inr (PDict [(''result'', PStr ''success'')])"


definition handles_always :: "real \<Rightarrow> ToolContext \<Rightarrow> real option" where
  "handles_always c context = Some c"

definition handles_raising :: "ToolContext \<Rightarrow> real option" where
  "handles_raising context = None"

definition echo_tool :: Tool where
  "echo_tool = \<lparr>name = ''mock_tool'', description = ''A mock tool for testing'',
     required_params = [''param1''], version = ''1.0.0'', compatible_versions = 0,
     metrics = new_metrics, can_handle = handles_always 0.8, execute_impl = echo_impl\<rparr>"


definition idle_tool :: Tool where
  "idle_tool = echo_tool\<lparr>can_handle := handles_always 0\<rparr>"

definition flaky_tool :: Tool where
  "flaky_tool = echo_tool\<lparr>name := ''flaky_tool'',
     metrics := new_metrics\<lparr>success_rate := 0.5, total_executions := 2, failed_executions := 1\<rparr>\<rparr>"

definition reliable_tool :: Tool where
  "reliable_tool = echo_tool\<lparr>name := ''reliable_tool'',
     metrics := new_metrics\<lparr>success_rate := 1, total_executions := 2\<rparr>\<rparr>"

definition raising_tool :: Tool where
  "raising_tool = echo_tool\<lparr>name := ''raising_tool'', can_handle := handles_raising\<rparr>"

definition idle_registry :: ToolRegistry where
  "idle_registry = new_registry\<lparr>tools := [(''mock_tool'', idle_tool)]\<rparr>"

definition demo_registry :: ToolRegistry where
  "demo_registry = new_registry\<lparr>tools := [(''raising_tool'', raising_tool),
     (''flaky_tool'', flaky_tool), (''reliable_tool'', reliable_tool)]\<rparr>"

text \<open>
  Two classes of one name: the first inherits the list \<open>Tool.compatible_versions\<close>
  (address 0), the second declares a list of its own (address 1), as
  \<open>SearchTool\<close> and the test's \<open>MockTool\<close> do.
\<close>

definition empty_lists :: list_store where
  "empty_lists r = []"

definition tool_v1 :: ToolClass where
  "tool_v1 = echo_tool"

definition tool_v2 :: ToolClass where
  "tool_v2 = echo_tool\<lparr>version := ''2.0.0'', compatible_versions := 1\<rparr>"

text \<open>
  The agents of \<open>tests/routing/unit/test_decision_maker.py\<close>: two agents with
  metrics, and the agent of \<open>test_route_task_handles_missing_metrics\<close>, which has
  neither a load nor a performance block.
\<close>

definition no_metadata :: AgentRecord where
  "no_metadata = \<lparr>capabilities = None, status = None, performance = None, load = None,
     registered_at = None, last_updated = None, last_selected = None, current_task = None\<rparr>"

definition agent1 :: AgentRecord where
  "agent1 = no_metadata\<lparr>capabilities := Some [''intent''], status := Some ''active'',
     performance := Some (PDict [(''success_rate'', PNum 0.95)]), load := Some (PNum 0.3)\<rparr>"

definition agent2 :: AgentRecord where
  "agent2 = no_metadata\<lparr>capabilities := Some [''intent'', ''chat''], status := Some ''active'',
     performance := Some (PDict [(''success_rate'', PNum 0.85)]), load := Some (PNum 0.1)\<rparr>"

definition bare_agent :: AgentRecord where
  "bare_agent = no_metadata\<lparr>capabilities := Some [''chat''], status := Some ''active''\<rparr>"

definition test_catalog :: AgentRegistry where
  "test_catalog = \<lparr>agents = [(''agent1'', agent1), (''agent2'', agent2)]\<rparr>"

definition broken_catalog :: AgentRegistry where
  "broken_catalog = \<lparr>agents = [(''agent1'', agent1), (''agent3'', bare_agent)]\<rparr>"

definition bare_catalog :: AgentRegistry where
  "bare_catalog = \<lparr>agents = [(''agent3'', bare_agent)]\<rparr>"

text \<open>
  Session stores: an empty one, and one with the default settings (event emission off)
  that holds a session written at time 0 and a session written at time 3900, with a
  registered listener.
\<close>

definition empty_manager :: ContextManager where
  "empty_manager = \<lparr>session_expiration = 3600, event_emission_enabled = False,
     event_listeners = [], context_store = [], delivered = []\<rparr>"

definition quiet_manager :: ContextManager where
  "quiet_manager = empty_manager\<lparr>event_listeners := [''audit''],
     context_store := [(''old'', [(''_timestamp'', PNum 0), (''user'', PStr ''u1'')]),
                       (''recent'', [(''_timestamp'', PNum 3900)])]\<rparr>"

definition loud_manager :: ContextManager where
  "loud_manager = quiet_manager\<lparr>event_emission_enabled := True\<rparr>"

text \<open>
  The discovery of a fresh installation (no stored documents) and the execution context
  of \<open>tests/tools/unit/test_discovery.py\<close>.
\<close>

definition new_discovery :: ToolDiscovery where
  "new_discovery = \<lparr>performance_history = [], history_last_updated = 0, tool_patterns = [],
     patterns_last_updated = 0\<rparr>"

definition test_execution :: ExecutionContext where
  "test_execution = \<lparr>context_intent = Some ''test_intent'',
     context_entities = Some (PDict [(''entity1'', PStr ''value1'')]),
     context_metadata = Some (PDict [(''key1'', PStr ''value1'')])\<rparr>"

section \<open>Properties of the tools\<close>

subsection \<open>Execution and its metrics\<close>

text \<open>
  C3, as the code has it. \<open>Tool.execute\<close> does not validate: whatever the
  parameters are, the result is the one of the tool-specific logic, a success with its
  data or a failure with its message. \<open>validate_params\<close> is a check of its own, true
  exactly for a dictionary that has every required name, which the tool-specific logic
  may call.
\<close>

theorem execute_runs_impl_unvalidated:
  assumes "0 \<le> total_executions (metrics tool)"
  shows "fst (execute tool params context elapsed now)
      = (case execute_impl tool params context of
           Inr result \<Rightarrow>
             \<lparr>success = True, data = result, next_tools = [], error_message = None\<rparr>
         | Inl msg \<Rightarrow>
             \<lparr>success = False, data = PDict [], next_tools = [], error_message = Some msg\<rparr>)
    \<and> validate_params tool params
      = (\<exists>d. params = PDict d \<and> set (required_params tool) \<subseteq> fst ` set d)"
  using assms
  by (auto simp: execute_def execute_failed_def validate_params_def Let_def list_all_iff
      split: sum.splits pyval.splits)

theorem execute_runs_impl_unvalidated_witness:
  "0 \<le> total_executions (metrics echo_tool)
   \<and> fst (execute echo_tool (PDict []) demo_context 2 7)
      = \<lparr>success = True, data = PDict [(''result'', PStr ''success'')], next_tools = [],
         error_message = None\<rparr>"
  using execute_runs_impl_unvalidated [of echo_tool "PDict []" demo_context 2 7]
  by (simp add: echo_tool_def new_metrics_def echo_impl_def)

text \<open>
  C3 fails as stated: \<open>param1\<close> is required and missing, the parameters do not
  validate, and the tool-specific logic runs all the same and its data is returned.
\<close>

theorem execute_validates_counterexample:
  "\<not> validate_params echo_tool (PDict [])
   \<and> success (fst (execute echo_tool (PDict []) demo_context 2 7))
   \<and> data (fst (execute echo_tool (PDict []) demo_context 2 7))
      = PDict [(''result'', PStr ''success'')]"
  by (simp add: validate_params_def echo_tool_def new_metrics_def echo_impl_def execute_def
      Let_def)




subsection \<open>Tool selection\<close>

text \<open>
  The loop keeps a best confidence that never falls, changes the best tool only to a
  tool of the list that beats it and reaches the minimum, and ends above every tool that
  reaches the minimum.
\<close>

lemma select_loop_spec:
  assumes "select_loop tc minc ts (bt, bc) = (rt, rc)"
  shows "bc \<le> rc
    \<and> ((rt = bt \<and> rc = bc) \<or> (\<exists>t \<in> set ts. rt = Some t \<and> adjusted_confidence t tc = Some rc
           \<and> bc < rc \<and> minc \<le> rc))
    \<and> (\<forall>u \<in> set ts. \<forall>b. adjusted_confidence u tc = Some b \<longrightarrow> b \<le> rc \<or> b < minc)"
  using assms
proof (induction ts arbitrary: bt bc)
  case Nil
  then show ?case by simp
next
  case (Cons t ts)
  show ?case
  proof (cases "adjusted_confidence t tc")
    case None
    with Cons.prems have "select_loop tc minc ts (bt, bc) = (rt, rc)" by simp
    from Cons.IH [OF this] None show ?thesis by auto
  next
    case (Some a)
    show ?thesis
    proof (cases "a > bc \<and> a \<ge> minc")
      case True
      with Cons.prems Some have "select_loop tc minc ts (Some t, a) = (rt, rc)" by simp
      from Cons.IH [OF this] Some True show ?thesis by fastforce
    next
      case False
      with Cons.prems Some have "select_loop tc minc ts (bt, bc) = (rt, rc)" by auto
      from Cons.IH [OF this] Some False show ?thesis by fastforce
    qed
  qed
qed

lemma select_loop_skip_raising:
  "select_loop tc minc (filter (\<lambda>t. can_handle t tc \<noteq> None) ts) best = select_loop tc minc ts best"
proof (induction ts arbitrary: best)
  case Nil
  show ?case by simp
next
  case (Cons t ts)
  obtain bt bc where b: "best = (bt, bc)" by (cases best)
  show ?case unfolding b using Cons.IH
    by (cases "can_handle t tc") (simp_all add: adjusted_confidence_def)
qed

lemma select_tool_some:
  assumes tc: "make_tool_context str_float context = Some tc"
    and sel: "select_tool str_float reg context minc = Some t"
  shows "t \<in> snd ` set (tools reg)
    \<and> (\<exists>a. adjusted_confidence t tc = Some a \<and> 0 < a \<and> minc \<le> a
         \<and> (\<forall>u \<in> snd ` set (tools reg). \<forall>b. adjusted_confidence u tc = Some b \<longrightarrow> b \<le> a))"
proof -
  obtain rt rc where r: "select_loop tc minc (map snd (tools reg)) (None, 0) = (rt, rc)"
    by (cases "select_loop tc minc (map snd (tools reg)) (None, 0)")
  with tc sel have rt: "rt = Some t" by (simp add: select_tool_def)
  from select_loop_spec [OF r] rt
  have t: "t \<in> snd ` set (tools reg)" and a: "adjusted_confidence t tc = Some rc"
    and pos: "0 < rc" and m: "minc \<le> rc"
    and all: "\<forall>u \<in> set (map snd (tools reg)). \<forall>b.
        adjusted_confidence u tc = Some b \<longrightarrow> b \<le> rc \<or> b < minc"
    by auto
  from all m have "\<forall>u \<in> snd ` set (tools reg). \<forall>b. adjusted_confidence u tc = Some b \<longrightarrow> b \<le> rc"
    by fastforce
  with t a pos m show ?thesis by blast
qed

lemma select_tool_none:
  assumes tc: "make_tool_context str_float context = Some tc"
    and sel: "select_tool str_float reg context minc = None"
  shows "\<forall>u \<in> snd ` set (tools reg). \<forall>b. adjusted_confidence u tc = Some b \<longrightarrow> b \<le> 0 \<or> b < minc"
proof -
  obtain rt rc where r: "select_loop tc minc (map snd (tools reg)) (None, 0) = (rt, rc)"
    by (cases "select_loop tc minc (map snd (tools reg)) (None, 0)")
  with tc sel have rt: "rt = None" by (simp add: select_tool_def)
  from select_loop_spec [OF r] rt show ?thesis by auto
qed

lemma select_tool_prefers_reliable:
  assumes tc: "make_tool_context str_float context = Some tc"
    and lo: "lo \<in> snd ` set (tools reg)" and hi: "hi \<in> snd ` set (tools reg)"
    and raw: "can_handle lo tc = Some r" "can_handle hi tc = Some r"
    and rate: "0 \<le> success_rate (metrics lo)" "success_rate (metrics lo) < success_rate (metrics hi)"
  shows "select_tool str_float reg context minc \<noteq> Some lo"
proof
  assume sel: "select_tool str_float reg context minc = Some lo"
  from select_tool_some [OF tc sel] raw(1)
  have pos: "0 < r * (0.8 + 0.2 * success_rate (metrics lo))"
    and all: "\<forall>u \<in> snd ` set (tools reg). \<forall>b. adjusted_confidence u tc = Some b
        \<longrightarrow> b \<le> r * (0.8 + 0.2 * success_rate (metrics lo))"
    by (auto simp: adjusted_confidence_def)
  from rate(1) have "0 < 0.8 + 0.2 * success_rate (metrics lo)" by simp
  with pos have r: "0 < r" by (simp add: zero_less_mult_iff)
  from raw(2) have "adjusted_confidence hi tc = Some (r * (0.8 + 0.2 * success_rate (metrics hi)))"
    by (simp only: adjusted_confidence_def option.case)
  with all hi
  have "r * (0.8 + 0.2 * success_rate (metrics hi)) \<le> r * (0.8 + 0.2 * success_rate (metrics lo))"
    by blast
  with r rate(2) show False by simp
qed

lemma select_tool_skip_raising:
  assumes tc: "make_tool_context str_float context = Some tc"
  shows "select_tool str_float (reg\<lparr>tools := filter (\<lambda>(n, t). can_handle t tc \<noteq> None) (tools reg)\<rparr>)
      context minc = select_tool str_float reg context minc"
proof -
  have "map snd (filter (\<lambda>(n, t). can_handle t tc \<noteq> None) (tools reg))
      = filter (\<lambda>t. can_handle t tc \<noteq> None) (map snd (tools reg))"
    by (simp add: filter_map comp_def case_prod_unfold del: not_None_eq)
  with tc show ?thesis
    by (simp add: select_tool_def select_loop_skip_raising del: not_None_eq)
qed

text \<open>
  C5, as the code has it. For a context whose confidence converts to a number:
  a tool that \<open>select_tool\<close> returns is registered, and its adjusted confidence
  \<open>raw * (0.8 + 0.2 * success_rate)\<close> is positive, at least \<open>min_confidence\<close> and
  maximal over the registered tools whose \<open>can_handle\<close> returned; when no tool is
  returned, every adjusted confidence is at most 0 or below \<open>min_confidence\<close>, and no
  tool is returned when none reaches \<open>min_confidence\<close>; of two registered tools with
  the same raw confidence, the one with the lower success rate (not negative) is never
  the one returned; and the tools whose \<open>can_handle\<close> raises can be taken out of the
  registry without changing the selection.
\<close>

theorem select_tool_maximal:
  assumes "make_tool_context str_float context = Some tc"
  shows "(\<forall>t. select_tool str_float reg context minc = Some t \<longrightarrow>
            t \<in> snd ` set (tools reg)
            \<and> (\<exists>a. adjusted_confidence t tc = Some a \<and> 0 < a \<and> minc \<le> a
                 \<and> (\<forall>u \<in> snd ` set (tools reg). \<forall>b.
                       adjusted_confidence u tc = Some b \<longrightarrow> b \<le> a)))
    \<and> (select_tool str_float reg context minc = None \<longrightarrow>
          (\<forall>u \<in> snd ` set (tools reg). \<forall>b.
             adjusted_confidence u tc = Some b \<longrightarrow> b \<le> 0 \<or> b < minc))
    \<and> ((\<forall>u \<in> snd ` set (tools reg). \<forall>b. adjusted_confidence u tc = Some b \<longrightarrow> b < minc)
          \<longrightarrow> select_tool str_float reg context minc = None)
    \<and> (\<forall>lo \<in> snd ` set (tools reg). \<forall>hi \<in> snd ` set (tools reg). \<forall>r.
          can_handle lo tc = Some r \<and> can_handle hi tc = Some r
          \<and> 0 \<le> success_rate (metrics lo)
          \<and> success_rate (metrics lo) < success_rate (metrics hi)
          \<longrightarrow> select_tool str_float reg context minc \<noteq> Some lo)
    \<and> select_tool str_float
          (reg\<lparr>tools := filter (\<lambda>(n, t). can_handle t tc \<noteq> None) (tools reg)\<rparr>) context minc
        = select_tool str_float reg context minc"
proof (intro conjI allI impI ballI)
  fix t assume "select_tool str_float reg context minc = Some t"
  from select_tool_some [OF assms this]
  show "t \<in> snd ` set (tools reg)"
    and "\<exists>a. adjusted_confidence t tc = Some a \<and> 0 < a \<and> minc \<le> a
         \<and> (\<forall>u \<in> snd ` set (tools reg). \<forall>b. adjusted_confidence u tc = Some b \<longrightarrow> b \<le> a)"
    by blast+
next
  fix u b
  assume "select_tool str_float reg context minc = None" "u \<in> snd ` set (tools reg)"
    "adjusted_confidence u tc = Some b"
  with select_tool_none [OF assms] show "b \<le> 0 \<or> b < minc" by blast
next
  assume below: "\<forall>u \<in> snd ` set (tools reg). \<forall>b. adjusted_confidence u tc = Some b \<longrightarrow> b < minc"
  show "select_tool str_float reg context minc = None"
  proof (cases "select_tool str_float reg context minc")
    case None
    then show ?thesis .
  next
    case (Some t)
    from select_tool_some [OF assms Some] below show ?thesis by fastforce
  qed
next
  fix lo hi r
  assume "lo \<in> snd ` set (tools reg)" "hi \<in> snd ` set (tools reg)"
    "can_handle lo tc = Some r \<and> can_handle hi tc = Some r
      \<and> 0 \<le> success_rate (metrics lo) \<and> success_rate (metrics lo) < success_rate (metrics hi)"
  then show "select_tool str_float reg context minc \<noteq> Some lo"
    using select_tool_prefers_reliable [OF assms] by blast
next
  show "select_tool str_float
          (reg\<lparr>tools := filter (\<lambda>(n, t). can_handle t tc \<noteq> None) (tools reg)\<rparr>) context minc
        = select_tool str_float reg context minc"
    by (rule select_tool_skip_raising [OF assms])
qed

theorem select_tool_maximal_witness:
  "make_tool_context no_parse demo_request = Some demo_context
   \<and> select_tool no_parse demo_registry demo_request 0.1 = Some reliable_tool
   \<and> adjusted_confidence reliable_tool demo_context = Some 0.8
   \<and> adjusted_confidence flaky_tool demo_context = Some 0.72
   \<and> adjusted_confidence raising_tool demo_context = None"
proof -
  have h: "make_tool_context no_parse demo_request = Some demo_context"
    by (simp add: make_tool_context_def demo_request_def demo_context_def dict_get_def)
  show ?thesis
    using h select_tool_maximal [OF h, of demo_registry "0.1"]
    by (simp add: select_tool_def demo_registry_def new_registry_def adjusted_confidence_def
        reliable_tool_def flaky_tool_def raising_tool_def echo_tool_def new_metrics_def
        handles_always_def handles_raising_def)
qed

text \<open>
  C5 fails as stated: with \<open>min_confidence = 0\<close> the only registered tool has the
  adjusted confidence 0, which reaches the minimum, and no tool is returned: the loop
  starts from a best confidence of 0 and takes a tool only above it.
\<close>

theorem select_tool_counterexample:
  "adjusted_confidence idle_tool demo_context = Some 0
   \<and> make_tool_context no_parse demo_request = Some demo_context
   \<and> tools idle_registry = [(''mock_tool'', idle_tool)]
   \<and> select_tool no_parse idle_registry demo_request 0 = None"
  by (simp add: select_tool_def make_tool_context_def demo_request_def demo_context_def
      dict_get_def idle_registry_def new_registry_def adjusted_confidence_def idle_tool_def
      echo_tool_def new_metrics_def handles_always_def)

subsection \<open>Registration\<close>

text \<open>
  C6 on the two classes of one name, the second with a list \<open>compatible_versions\<close> of
  its own. Both registrations succeed and the registry holds version 2.0.0, but the old
  version string went to the list of the replaced tool (address 0, the list of the base
  class): the list of the registered tool is still empty.
\<close>

theorem register_archives_into_replaced_tool:
  "\<exists>reg1 store1 reg2 store2 tool.
     register new_registry empty_lists tool_v1 = Inr (reg1, store1)
     \<and> register reg1 store1 tool_v2 = Inr (reg2, store2)
     \<and> map_of (tools reg2) ''mock_tool'' = Some tool
     \<and> version tool = ''2.0.0''
     \<and> store2 (compatible_versions tool) = []
     \<and> store2 0 = [''1.0.0'']
     \<and> map_of (version_history reg2) ''mock_tool'' = Some [''1.0.0'', ''2.0.0'']"
  by (simp add: register_def instantiate_def new_registry_def empty_lists_def tool_v1_def
      tool_v2_def echo_tool_def Let_def)

section \<open>Properties of the decision engine\<close>

subsection \<open>The loops of the engine\<close>

text \<open>
  Storing under a new key appends; the metrics loop leaves the keys it does not visit,
  and over distinct agent names it stores the metric of every agent it visits.
\<close>

lemma update_absent:
  "k \<notin> fst ` set al \<Longrightarrow> AList.update k v al = al @ [(k, v)]"
  by (induction al) auto

lemma metrics_loop_keeps:
  assumes "metrics_loop metric xs acc = Inr m" "k \<notin> fst ` set xs"
  shows "map_of m k = map_of acc k"
  using assms
proof (induction xs arbitrary: acc)
  case Nil
  then show ?case by simp
next
  case (Cons x xs)
  obtain b md where x: "x = (b, md)" by (cases x)
  from Cons.prems x obtain v where v: "metric md = Some v"
    and rest: "metrics_loop metric xs (AList.update b v acc) = Inr m"
    by (cases "metric md") auto
  from Cons.prems(2) x have "k \<noteq> b" "k \<notin> fst ` set xs" by auto
  with Cons.IH [OF rest] show ?case by (simp add: update_conv')
qed

lemma metrics_loop_values:
  assumes "metrics_loop metric xs acc = Inr m" "distinct (map fst xs)" "(a, md) \<in> set xs"
  shows "metric md = map_of m a \<and> map_of m a \<noteq> None"
  using assms
proof (induction xs arbitrary: acc)
  case Nil
  then show ?case by simp
next
  case (Cons x xs)
  obtain b md' where x: "x = (b, md')" by (cases x)
  from Cons.prems x obtain v where v: "metric md' = Some v"
    and rest: "metrics_loop metric xs (AList.update b v acc) = Inr m"
    by (cases "metric md'") auto
  from Cons.prems(2) x have d: "distinct (map fst xs)" and nb: "b \<notin> fst ` set xs" by auto
  show ?case
  proof (cases "(a, md) = (b, md')")
    case True
    from metrics_loop_keeps [OF rest nb] have "map_of m b = Some v" by (simp add: update_conv')
    with True v show ?thesis by simp
  next
    case False
    with Cons.prems(3) x have "(a, md) \<in> set xs" by auto
    from Cons.IH [OF rest d this] show ?thesis .
  qed
qed

text \<open>
  Over distinct candidates the dictionary comprehension of \<open>route_task\<close> lists the
  scores in the order of the candidates.
\<close>

lemma fold_scores:
  assumes "distinct cs" "set cs \<inter> fst ` set acc = {}"
  shows "fold (\<lambda>a scores. AList.update a (f a) scores) cs acc = acc @ map (\<lambda>a. (a, f a)) cs"
  using assms
proof (induction cs arbitrary: acc)
  case Nil
  show ?case by simp
next
  case (Cons c cs)
  from Cons.prems have c: "c \<notin> fst ` set acc" by auto
  from Cons.prems have "distinct cs" "set cs \<inter> fst ` set (acc @ [(c, f c)]) = {}" by auto
  from Cons.IH [OF this] c show ?case by (simp add: update_absent)
qed

text \<open>
  The maximum that Python's \<open>max\<close> keeps splits the sequence: strictly smaller keys
  before it, keys that are not greater after it.
\<close>

lemma fold_keep_max:
  "\<exists>pre post. best # xs = pre @ fold keep_max xs best # post
     \<and> (\<forall>y \<in> set pre. snd y < snd (fold keep_max xs best))
     \<and> (\<forall>y \<in> set post. snd y \<le> snd (fold keep_max xs best))"
proof (induction xs arbitrary: best)
  case Nil
  have "[best] = [] @ best # [] \<and> (\<forall>y \<in> set []. snd y < snd best)
    \<and> (\<forall>y \<in> set []. snd y \<le> snd best)" by simp
  then show ?case unfolding fold_simps by blast
next
  case (Cons x xs)
  let ?r = "fold keep_max (x # xs) best"
  show ?case
  proof (cases "snd x > snd best")
    case True
    then have r: "?r = fold keep_max xs x" by (simp add: keep_max_def)
    from Cons.IH [of x] obtain pre post where s: "x # xs = pre @ fold keep_max xs x # post"
      and lt: "\<forall>y \<in> set pre. snd y < snd (fold keep_max xs x)"
      and le: "\<forall>y \<in> set post. snd y \<le> snd (fold keep_max xs x)" by blast
    have "snd x \<le> snd (fold keep_max xs x)"
    proof (cases pre)
      case Nil
      with s have "fold keep_max xs x = x" by (metis append_Nil list.inject)
      then show ?thesis by simp
    next
      case (Cons p ps)
      with s have "p = x" by (metis append_Cons list.inject)
      with lt Cons show ?thesis by simp
    qed
    with True have "snd best < snd (fold keep_max xs x)" by simp
    with s lt le have "best # x # xs = (best # pre) @ fold keep_max xs x # post
      \<and> (\<forall>y \<in> set (best # pre). snd y < snd (fold keep_max xs x))
      \<and> (\<forall>y \<in> set post. snd y \<le> snd (fold keep_max xs x))" by simp
    then show ?thesis unfolding r by blast
  next
    case False
    then have r: "?r = fold keep_max xs best" by (simp add: keep_max_def)
    from Cons.IH [of best] obtain pre post where s: "best # xs = pre @ fold keep_max xs best # post"
      and lt: "\<forall>y \<in> set pre. snd y < snd (fold keep_max xs best)"
      and le: "\<forall>y \<in> set post. snd y \<le> snd (fold keep_max xs best)" by blast
    show ?thesis
    proof (cases pre)
      case Nil
      with s have b: "fold keep_max xs best = best" and p: "post = xs"
        by (metis append_Nil list.inject)+
      from False le have "best # x # xs = [] @ fold keep_max xs best # (x # xs)
        \<and> (\<forall>y \<in> set []. snd y < snd (fold keep_max xs best))
        \<and> (\<forall>y \<in> set (x # xs). snd y \<le> snd (fold keep_max xs best))"
        unfolding b p by auto
      then show ?thesis unfolding r by blast
    next
      case (Cons p ps)
      with s have p: "p = best" and xs: "xs = ps @ fold keep_max xs best # post"
        by (metis append_Cons list.inject)+
      from lt Cons p have "snd best < snd (fold keep_max xs best)" by simp
      with False have "snd x < snd (fold keep_max xs best)" by simp
      with lt le Cons p xs
      have "best # x # xs = (best # x # ps) @ fold keep_max xs best # post
        \<and> (\<forall>y \<in> set (best # x # ps). snd y < snd (fold keep_max xs best))
        \<and> (\<forall>y \<in> set post. snd y \<le> snd (fold keep_max xs best))" by auto
      then show ?thesis unfolding r by blast
    qed
  qed
qed

text \<open>A split of the filtered and mapped list comes from a split of the list.\<close>

lemma map_filter_split:
  assumes "map f (filter P xs) = ys @ z # zs"
  shows "\<exists>us v vs. xs = us @ v # vs \<and> P v \<and> f v = z
     \<and> map f (filter P us) = ys \<and> map f (filter P vs) = zs"
  using assms
proof (induction xs arbitrary: ys)
  case Nil
  then show ?case by simp
next
  case (Cons x xs)
  show ?case
  proof (cases "P x")
    case False
    with Cons.prems have "map f (filter P xs) = ys @ z # zs" by simp
    from Cons.IH [OF this] obtain us v vs where "xs = us @ v # vs" "P v" "f v = z"
      "map f (filter P us) = ys" "map f (filter P vs) = zs" by blast
    with False have "x # xs = (x # us) @ v # vs \<and> P v \<and> f v = z
      \<and> map f (filter P (x # us)) = ys \<and> map f (filter P vs) = zs" by simp
    then show ?thesis by blast
  next
    case True
    show ?thesis
    proof (cases ys)
      case Nil
      with True Cons.prems have "x # xs = [] @ x # xs \<and> P x \<and> f x = z
        \<and> map f (filter P []) = ys \<and> map f (filter P xs) = zs" by simp
      then show ?thesis by blast
    next
      case (Cons y ys')
      with True Cons.prems have y: "f x = y" and "map f (filter P xs) = ys' @ z # zs" by simp_all
      from Cons.IH [OF this(2)] obtain us v vs where "xs = us @ v # vs" "P v" "f v = z"
        "map f (filter P us) = ys'" "map f (filter P vs) = zs" by blast
      with True y Cons have "x # xs = (x # us) @ v # vs \<and> P v \<and> f v = z
        \<and> map f (filter P (x # us)) = ys \<and> map f (filter P vs) = zs" by simp
      then show ?thesis by blast
    qed
  qed
qed

text \<open>An agent whose metric raises makes the loop fail, and the loop fails in no other way.\<close>

lemma metrics_loop_fails:
  assumes "(a, md) \<in> set xs" "metric md = None"
  shows "\<exists>b. metrics_loop metric xs acc = Inl (InvalidMetrics b)"
  using assms
proof (induction xs arbitrary: acc)
  case Nil
  then show ?case by simp
next
  case (Cons x xs)
  obtain b m where x: "x = (b, m)" by (cases x)
  show ?case
  proof (cases "metric m")
    case None
    then show ?thesis by (simp add: x)
  next
    case (Some v)
    with Cons.prems x have "(a, md) \<in> set xs" by auto
    from Cons.IH [OF this Cons.prems(2)] Some show ?thesis by (simp add: x)
  qed
qed

lemma metrics_loop_result:
  "(\<exists>m. metrics_loop metric xs acc = Inr m)
     \<or> (\<exists>b. metrics_loop metric xs acc = Inl (InvalidMetrics b))"
proof (induction xs arbitrary: acc)
  case Nil
  show ?case by simp
next
  case (Cons x xs)
  obtain b m where x: "x = (b, m)" by (cases x)
  show ?case using Cons.IH by (cases "metric m") (simp_all add: x)
qed

subsection \<open>Routing\<close>

text \<open>
  C1. In a catalog (a dictionary: the agent names are distinct) whose load and
  performance metrics are all retrieved and where some agent has the capability and the
  status \<open>active\<close>, \<open>route_task\<close> returns an agent \<open>sel\<close> of the catalog that has
  the capability and is active; every such agent before it in the catalog has a strictly
  smaller score \<open>0.6 * success_rate + 0.4 * (1 - load)\<close>, and every such agent after
  it a score that is not greater: \<open>sel\<close> is the first agent of maximal score.
\<close>

theorem route_task_selects_best:
  assumes dist: "distinct (map fst (agents reg))"
    and lm: "get_load_metrics str_float reg = Inr lm"
    and pm: "get_performance_metrics str_float reg = Inr pm"
    and ex: "\<exists>(a, md) \<in> set (agents reg). has_capability cap md \<and> status md = Some ''active''"
  shows "\<exists>sel reg' md pre post p l.
      route_task str_float reg cap now = Inr (sel, reg')
      \<and> agents reg = pre @ (sel, md) # post
      \<and> has_capability cap md \<and> status md = Some ''active''
      \<and> agent_performance str_float md = Some p \<and> agent_load str_float md = Some l
      \<and> (\<forall>(a, m) \<in> set pre. has_capability cap m \<and> status m = Some ''active'' \<longrightarrow>
            (\<exists>p' l'. agent_performance str_float m = Some p' \<and> agent_load str_float m = Some l'
               \<and> 0.6 * p' + 0.4 * (1 - l') < 0.6 * p + 0.4 * (1 - l)))
      \<and> (\<forall>(a, m) \<in> set post. has_capability cap m \<and> status m = Some ''active'' \<longrightarrow>
            (\<exists>p' l'. agent_performance str_float m = Some p' \<and> agent_load str_float m = Some l'
               \<and> 0.6 * p' + 0.4 * (1 - l') \<le> 0.6 * p + 0.4 * (1 - l)))"
proof -
  define P where "P = (\<lambda>(agent_id :: string, md). has_capability cap md \<and> status md = Some ''active'')"
  define sc where "sc = (\<lambda>a. calculate_agent_score a lm pm)"
  define g where "g = (\<lambda>(a :: string, md :: AgentRecord). (a, sc a))"
  define cands where "cands = map fst (filter P (agents reg))"
  \<comment> \<open>the metrics of every registered agent\<close>
  have metrics: "\<exists>p l. agent_performance str_float m = Some p \<and> agent_load str_float m = Some l
      \<and> map_of pm a = Some p \<and> map_of lm a = Some l \<and> sc a = 0.6 * p + 0.4 * (1 - l)"
    if "(a, m) \<in> set (agents reg)" for a m
  proof -
    from metrics_loop_values [OF lm [unfolded get_load_metrics_def] dist that]
    obtain l where l: "agent_load str_float m = Some l" "map_of lm a = Some l" by auto
    from metrics_loop_values [OF pm [unfolded get_performance_metrics_def] dist that]
    obtain p where p: "agent_performance str_float m = Some p" "map_of pm a = Some p" by auto
    from l p have "sc a = 0.6 * p + 0.4 * (1 - l)"
      by (simp add: sc_def calculate_agent_score_def metric_get_def weight_performance_def
          weight_load_def)
    with l p show ?thesis by blast
  qed
  \<comment> \<open>the candidates\<close>
  from ex have ne: "cands \<noteq> []" by (auto simp: cands_def P_def filter_empty_conv)
  then have "map fst (filter (\<lambda>(agent_id, md). has_capability cap md) (agents reg)) \<noteq> []"
    by (auto simp: cands_def P_def filter_empty_conv)
  with ne have c: "get_candidate_agents reg cap = Inr cands"
    by (simp add: get_candidate_agents_def cands_def P_def Let_def)
  from dist have dc: "distinct cands" unfolding cands_def by (rule distinct_map_filter)
  have inreg: "\<exists>m. (a, m) \<in> set (agents reg)" if "a \<in> set cands" for a
    using that by (auto simp: cands_def)
  have "\<forall>a \<in> set cands. \<not> (map_of lm a = None \<or> map_of pm a = None)"
  proof
    fix a assume "a \<in> set cands"
    with inreg obtain m where "(a, m) \<in> set (agents reg)" by blast
    from metrics [OF this] show "\<not> (map_of lm a = None \<or> map_of pm a = None)" by auto
  qed
  then have f: "find (\<lambda>a. map_of lm a = None \<or> map_of pm a = None) cands = None"
    by (simp add: find_None_iff)
  \<comment> \<open>the scores and their maximum\<close>
  have scores: "fold (\<lambda>a scores. AList.update a (calculate_agent_score a lm pm) scores) cands []
      = map g (filter P (agents reg))"
    using fold_scores [OF dc, of "[]" sc]
    by (simp add: sc_def cands_def g_def comp_def case_prod_unfold)
  from ne obtain x xs where xs: "map g (filter P (agents reg)) = x # xs"
    by (cases "map g (filter P (agents reg))") (auto simp: cands_def)
  define r where "r = fold keep_max xs x"
  from fold_keep_max [of x xs] obtain ys zs where split: "x # xs = ys @ r # zs"
    and lt: "\<forall>y \<in> set ys. snd y < snd r" and le: "\<forall>y \<in> set zs. snd y \<le> snd r"
    unfolding r_def by blast
  from xs split have "map g (filter P (agents reg)) = ys @ r # zs" by simp
  from map_filter_split [OF this] obtain pre v post where reg: "agents reg = pre @ v # post"
    and Pv: "P v" and gv: "g v = r" and ys: "map g (filter P pre) = ys"
    and zs: "map g (filter P post) = zs" by blast
  obtain sel md where v: "v = (sel, md)" by (cases v)
  from gv v have r: "r = (sel, sc sel)" by (simp add: g_def)
  from reg v have selreg: "(sel, md) \<in> set (agents reg)" by simp
  from metrics [OF selreg] obtain p l where p: "agent_performance str_float md = Some p"
    and l: "agent_load str_float md = Some l" and scsel: "sc sel = 0.6 * p + 0.4 * (1 - l)"
    by blast
  from selreg dist have "map_of (agents reg) sel = Some md" by simp
  then obtain reg' where upd: "update_agent reg sel
      (\<lambda>md. md\<lparr>last_selected := Some now, current_task := Some cap\<rparr>) now = Inr reg'"
    by (simp add: update_agent_def)
  have route: "route_task str_float reg cap now = Inr (sel, reg')"
    using c lm pm f scores xs upd r unfolding r_def
    by (simp add: route_task_def Let_def)
  have before: "\<exists>p' l'. agent_performance str_float m = Some p' \<and> agent_load str_float m = Some l'
      \<and> 0.6 * p' + 0.4 * (1 - l') < 0.6 * p + 0.4 * (1 - l)"
    if "(a, m) \<in> set pre" "has_capability cap m \<and> status m = Some ''active''" for a m
  proof -
    from that have "g (a, m) \<in> set ys" unfolding ys [symmetric] by (auto simp: P_def)
    with lt r have "sc a < sc sel" by (auto simp: g_def)
    moreover from that reg have "(a, m) \<in> set (agents reg)" by simp
    from metrics [OF this] obtain p' l' where "agent_performance str_float m = Some p'"
      "agent_load str_float m = Some l'" "sc a = 0.6 * p' + 0.4 * (1 - l')" by blast
    ultimately show ?thesis using scsel by auto
  qed
  have after: "\<exists>p' l'. agent_performance str_float m = Some p' \<and> agent_load str_float m = Some l'
      \<and> 0.6 * p' + 0.4 * (1 - l') \<le> 0.6 * p + 0.4 * (1 - l)"
    if "(a, m) \<in> set post" "has_capability cap m \<and> status m = Some ''active''" for a m
  proof -
    from that have "g (a, m) \<in> set zs" unfolding zs [symmetric] by (auto simp: P_def)
    with le r have "sc a \<le> sc sel" by (auto simp: g_def)
    moreover from that reg have "(a, m) \<in> set (agents reg)" by simp
    from metrics [OF this] obtain p' l' where "agent_performance str_float m = Some p'"
      "agent_load str_float m = Some l'" "sc a = 0.6 * p' + 0.4 * (1 - l')" by blast
    ultimately show ?thesis using scsel by auto
  qed
  from Pv v have "has_capability cap md \<and> status md = Some ''active''" by (simp add: P_def)
  with route reg v p l before after show ?thesis
    by (intro exI [of _ sel] exI [of _ reg'] exI [of _ md] exI [of _ pre] exI [of _ post]
        exI [of _ p] exI [of _ l]) auto
qed

theorem route_task_selects_best_witness:
  "distinct (map fst (agents test_catalog))
   \<and> get_load_metrics no_parse test_catalog = Inr [(''agent1'', 0.3), (''agent2'', 0.1)]
   \<and> get_performance_metrics no_parse test_catalog = Inr [(''agent1'', 0.95), (''agent2'', 0.85)]
   \<and> has_capability ''intent'' agent1 \<and> status agent1 = Some ''active''
   \<and> (\<exists>reg'. route_task no_parse test_catalog ''intent'' 5 = Inr (''agent2'', reg'))"
proof -
  have h1: "distinct (map fst (agents test_catalog))"
    by (simp add: test_catalog_def)
  have h2: "get_load_metrics no_parse test_catalog = Inr [(''agent1'', 0.3), (''agent2'', 0.1)]"
    by (simp add: get_load_metrics_def test_catalog_def agent_load_def agent1_def agent2_def
        no_metadata_def)
  have h3: "get_performance_metrics no_parse test_catalog
      = Inr [(''agent1'', 0.95), (''agent2'', 0.85)]"
    by (simp add: get_performance_metrics_def test_catalog_def agent_performance_def agent1_def
        agent2_def no_metadata_def)
  have h4: "has_capability ''intent'' agent1 \<and> status agent1 = Some ''active''"
    by (simp add: has_capability_def agent1_def no_metadata_def)
  then have h5: "\<exists>(a, md) \<in> set (agents test_catalog).
      has_capability ''intent'' md \<and> status md = Some ''active''"
    by (simp add: test_catalog_def)
  have "\<exists>reg'. route_task no_parse test_catalog ''intent'' 5 = Inr (''agent2'', reg')"
    using route_task_selects_best [OF h1 h2 h3 h5, of 5] h2 h3
    by (simp add: route_task_def get_candidate_agents_def test_catalog_def has_capability_def
        agent1_def agent2_def no_metadata_def calculate_agent_score_def metric_get_def
        weight_performance_def weight_load_def keep_max_def update_agent_def Let_def)
  with h1 h2 h3 h4 show ?thesis by blast
qed

text \<open>
  C2, as the code has it. For an agent without a \<open>load\<close> key whose performance block
  is absent, or is a dictionary with neither \<open>request_count\<close> nor
  \<open>response_time_ms\<close>, the load computation does not fail: it takes the defaults 0 and
  100 and yields the load \<open>min(1.0, 0 * 100 / 10000) = 0\<close>. When the performance
  block is absent it is the performance computation that fails, on the missing
  \<open>success_rate\<close>.
\<close>

theorem agent_load_defaults:
  assumes "load md = None"
    and "performance md = None
       \<or> (\<exists>perf. performance md = Some (PDict perf)
             \<and> map_of perf ''request_count'' = None \<and> map_of perf ''response_time_ms'' = None)"
  shows "agent_load str_float md = Some 0
    \<and> (performance md = None \<longrightarrow> agent_performance str_float md = None)"
  using assms by (auto simp: agent_load_def agent_performance_def derived_load_def dict_get_def)

theorem agent_load_defaults_witness:
  "load bare_agent = None \<and> performance bare_agent = None
   \<and> agent_load no_parse bare_agent = Some 0
   \<and> agent_performance no_parse bare_agent = None"
proof -
  have h1: "load bare_agent = None" by (simp add: bare_agent_def no_metadata_def)
  have h2: "performance bare_agent = None" by (simp add: bare_agent_def no_metadata_def)
  from agent_load_defaults [OF h1, of no_parse] h1 h2 show ?thesis by simp
qed

text \<open>
  C2 fails as stated: the agent of the test has neither a load nor a performance block,
  and \<open>get_load_metrics\<close> returns the load 0 for it instead of failing.
\<close>

theorem load_default_counterexample:
  "load bare_agent = None \<and> performance bare_agent = None
   \<and> get_load_metrics no_parse bare_catalog = Inr [(''agent3'', 0)]"
  by (simp add: get_load_metrics_def bare_catalog_def agent_load_def derived_load_def
      dict_get_def bare_agent_def no_metadata_def)

text \<open>
  C10, as the code has it. The candidates are computed first. When that fails (no agent
  has the capability, or none of them is active), \<open>route_task\<close> fails with that
  error. When it succeeds and any agent of the catalog, candidate or not, has a load or
  a performance that cannot be retrieved, \<open>route_task\<close> fails with
  \<open>InvalidMetrics\<close>.
\<close>

theorem route_task_invalid_metrics:
  assumes "(a, md) \<in> set (agents reg)"
    and "agent_load str_float md = None \<or> agent_performance str_float md = None"
  shows "(\<forall>cs. get_candidate_agents reg cap = Inr cs \<longrightarrow>
            (\<exists>b. route_task str_float reg cap now = Inl (InvalidMetrics b)))
    \<and> (\<forall>e. get_candidate_agents reg cap = Inl e \<longrightarrow>
            route_task str_float reg cap now = Inl e)"
proof (intro conjI allI impI)
  fix cs assume cands: "get_candidate_agents reg cap = Inr cs"
  show "\<exists>b. route_task str_float reg cap now = Inl (InvalidMetrics b)"
  proof (cases "get_load_metrics str_float reg")
    case (Inl e)
    with metrics_loop_result [of "agent_load str_float" "agents reg" "[]"]
    obtain b where "e = InvalidMetrics b" by (auto simp: get_load_metrics_def)
    with Inl cands show ?thesis by (simp add: route_task_def)
  next
    case (Inr lm)
    with metrics_loop_fails [OF assms(1), of "agent_load str_float" "[]"]
    have "agent_load str_float md \<noteq> None" by (auto simp: get_load_metrics_def)
    with assms(2) have "agent_performance str_float md = None" by simp
    from metrics_loop_fails [of a md "agents reg" "agent_performance str_float" "[]",
        OF assms(1) this]
    obtain b where "get_performance_metrics str_float reg = Inl (InvalidMetrics b)"
      by (auto simp: get_performance_metrics_def)
    with Inr cands show ?thesis by (simp add: route_task_def)
  qed
next
  fix e assume "get_candidate_agents reg cap = Inl e"
  then show "route_task str_float reg cap now = Inl e" by (simp add: route_task_def)
qed

theorem route_task_invalid_metrics_witness:
  "(''agent3'', bare_agent) \<in> set (agents broken_catalog)
   \<and> agent_performance no_parse bare_agent = None
   \<and> \<not> has_capability ''intent'' bare_agent
   \<and> get_candidate_agents broken_catalog ''intent'' = Inr [''agent1'']
   \<and> route_task no_parse broken_catalog ''intent'' 5 = Inl (InvalidMetrics ''agent3'')"
proof -
  have h1: "(''agent3'', bare_agent) \<in> set (agents broken_catalog)"
    by (simp add: broken_catalog_def)
  have h2: "agent_performance no_parse bare_agent = None"
    by (simp add: agent_performance_def bare_agent_def no_metadata_def)
  have h3: "get_candidate_agents broken_catalog ''intent'' = Inr [''agent1'']"
    by (simp add: get_candidate_agents_def broken_catalog_def has_capability_def agent1_def
        bare_agent_def no_metadata_def)
  have h4: "\<not> has_capability ''intent'' bare_agent"
    by (simp add: has_capability_def bare_agent_def no_metadata_def)
  have "route_task no_parse broken_catalog ''intent'' 5 = Inl (InvalidMetrics ''agent3'')"
    using route_task_invalid_metrics [OF h1 disjI2 [OF h2], of "''intent''" 5] h3
    by (simp add: route_task_def get_load_metrics_def get_performance_metrics_def
        broken_catalog_def agent_load_def agent_performance_def derived_load_def dict_get_def
        agent1_def bare_agent_def no_metadata_def)
  with h1 h2 h3 h4 show ?thesis by blast
qed

text \<open>
  C10 fails as stated: the catalog holds an agent whose performance cannot be retrieved,
  and for a capability that no agent has \<open>route_task\<close> fails with
  \<open>NoCapableAgents\<close>, not with \<open>InvalidMetrics\<close>.
\<close>

theorem route_task_invalid_metrics_counterexample:
  "(''agent3'', bare_agent) \<in> set (agents broken_catalog)
   \<and> agent_performance no_parse bare_agent = None
   \<and> route_task no_parse broken_catalog ''unknown'' 5 = Inl (NoCapableAgents ''unknown'')"
  by (simp add: route_task_def get_candidate_agents_def broken_catalog_def has_capability_def
      agent_performance_def agent1_def bare_agent_def no_metadata_def)

section \<open>Properties of the session store\<close>

subsection \<open>Deep merge\<close>

text \<open>
  What a key holds after \<open>recursive_update\<close>, for an update with distinct keys (a
  dictionary): the old value when the update has no such key, the merge of the two
  values when both are dictionaries, the new value otherwise.
\<close>

lemma recursive_update_lookup:
  assumes "distinct (map fst updates)"
  shows "map_of (recursive_update original updates) key
    = (case map_of updates key of
         None \<Rightarrow> map_of original key
       | Some value \<Rightarrow>
           (case (value, map_of original key) of
              (PDict u, Some (PDict orig)) \<Rightarrow> Some (PDict (recursive_update orig u))
            | _ \<Rightarrow> Some value))"
  using assms
proof (induction updates arbitrary: original)
  case Nil
  show ?case by simp
next
  case (Cons kv updates)
  obtain k v where kv: "kv = (k, v)" by (cases kv)
  define original' where "original' = (case (v, map_of original k) of
      (PDict u, Some (PDict orig)) \<Rightarrow> AList.update k (PDict (recursive_update orig u)) original
    | _ \<Rightarrow> AList.update k v original)"
  from Cons.prems kv have d: "distinct (map fst updates)" and nk: "map_of updates k = None"
    by (auto simp: map_of_eq_None_iff)
  have step: "recursive_update original (kv # updates) = recursive_update original' updates"
    by (simp add: kv original'_def)
  have other: "map_of original' key = map_of original key" if "key \<noteq> k"
    using that by (auto simp: original'_def update_conv' split: pyval.splits option.splits)
  have same: "map_of original' k = (case (v, map_of original k) of
      (PDict u, Some (PDict orig)) \<Rightarrow> Some (PDict (recursive_update orig u))
    | _ \<Rightarrow> Some v)"
    by (auto simp: original'_def update_conv' split: pyval.splits option.splits)
  show ?case
  proof (cases "key = k")
    case True
    with Cons.IH [OF d, of original'] nk same show ?thesis
      unfolding step by (simp add: kv)
  next
    case False
    from Cons.IH [OF d, of original'] show ?thesis
      unfolding step other [OF False] using False by (simp add: kv)
  qed
qed

lemma store_update_partial:
  "map_of (context_store (update_in_memory cm session_id partial_context now)) session_id
    = Some (AList.update ''_timestamp'' (PNum now)
        (recursive_update
           (case map_of (context_store cm) session_id of
              None \<Rightarrow> [(''_timestamp'', PNum now)]
            | Some context \<Rightarrow> context)
           partial_context))"
  by (simp add: update_in_memory_def emit_event_def Let_def update_conv')

lemma get_context_update_partial:
  "get_context (update_in_memory cm session_id partial_context now) session_id
    = AList.update ''_timestamp'' (PNum now)
        (recursive_update
           (case map_of (context_store cm) session_id of
              None \<Rightarrow> [(''_timestamp'', PNum now)]
            | Some context \<Rightarrow> context)
           partial_context)"
  by (simp add: get_context_def store_update_partial)

text \<open>
  The in-memory branch merges deeply. \<open>update_in_memory\<close> stores the
  \<open>recursive_update\<close> of the session (a new one when there is none) with the update,
  under a fresh timestamp. For each key of an update, \<open>recursive_update\<close> merges
  recursively when the old and the new value are both dictionaries and replaces the old
  value otherwise, at every depth, and keeps the keys that the update does not have.
  After the update \<open>{"a": {"x": 1}}\<close> and the update \<open>{"a": {"y": 2}}\<close>, the key
  \<open>a\<close> holds a dictionary with \<open>x = 1\<close> and \<open>y = 2\<close>; in a session that did
  not exist before, it is \<open>{"x": 1, "y": 2}\<close>.
\<close>

lemma update_in_memory_deep_merge:
  "get_context (update_in_memory cm session_id partial_context now) session_id
     = AList.update ''_timestamp'' (PNum now)
         (recursive_update
            (case map_of (context_store cm) session_id of
               None \<Rightarrow> [(''_timestamp'', PNum now)]
             | Some context \<Rightarrow> context)
            partial_context)
   \<and> (distinct (map fst updates) \<longrightarrow>
        map_of (recursive_update original updates) key
          = (case map_of updates key of
               None \<Rightarrow> map_of original key
             | Some value \<Rightarrow>
                 (case (value, map_of original key) of
                    (PDict u, Some (PDict orig)) \<Rightarrow> Some (PDict (recursive_update orig u))
                  | _ \<Rightarrow> Some value)))
   \<and> (\<exists>d. map_of (get_context
             (update_in_memory
                (update_in_memory cm s [(''a'', PDict [(''x'', PNum 1)])] t1)
                s [(''a'', PDict [(''y'', PNum 2)])] t2) s) ''a'' = Some (PDict d)
          \<and> map_of d ''x'' = Some (PNum 1) \<and> map_of d ''y'' = Some (PNum 2))
   \<and> (map_of (context_store cm) s = None \<longrightarrow>
        get_context
          (update_in_memory
             (update_in_memory cm s [(''a'', PDict [(''x'', PNum 1)])] t1)
             s [(''a'', PDict [(''y'', PNum 2)])] t2) s
        = [(''_timestamp'', PNum t2), (''a'', PDict [(''x'', PNum 1), (''y'', PNum 2)])])"
proof (intro conjI impI)
  show "get_context (update_in_memory cm session_id partial_context now) session_id
     = AList.update ''_timestamp'' (PNum now)
         (recursive_update
            (case map_of (context_store cm) session_id of
               None \<Rightarrow> [(''_timestamp'', PNum now)]
             | Some context \<Rightarrow> context)
            partial_context)"
    by (rule get_context_update_partial)
next
  assume "distinct (map fst updates)"
  then show "map_of (recursive_update original updates) key
      = (case map_of updates key of
           None \<Rightarrow> map_of original key
         | Some value \<Rightarrow>
             (case (value, map_of original key) of
                (PDict u, Some (PDict orig)) \<Rightarrow> Some (PDict (recursive_update orig u))
              | _ \<Rightarrow> Some value))"
    by (rule recursive_update_lookup)
next
  define c0 where "c0 = (case map_of (context_store cm) s of
      None \<Rightarrow> [(''_timestamp'', PNum t1)] | Some context \<Rightarrow> context)"
  define d1 where "d1 = (case map_of c0 ''a'' of
      Some (PDict orig) \<Rightarrow> AList.update ''x'' (PNum 1) orig | _ \<Rightarrow> [(''x'', PNum 1)])"
  define c1 where "c1 = AList.update ''_timestamp'' (PNum t1)
      (recursive_update c0 [(''a'', PDict [(''x'', PNum 1)])])"
  have c1: "map_of c1 ''a'' = Some (PDict d1)"
    by (simp add: c1_def d1_def update_conv' split: option.splits pyval.splits)
  have x: "map_of d1 ''x'' = Some (PNum 1)"
    by (simp add: d1_def update_conv' split: option.splits pyval.splits)
  have s1: "map_of (context_store (update_in_memory cm s
      [(''a'', PDict [(''x'', PNum 1)])] t1)) s = Some c1"
    by (simp add: store_update_partial c1_def c0_def)
  have "map_of (get_context
            (update_in_memory
               (update_in_memory cm s [(''a'', PDict [(''x'', PNum 1)])] t1)
               s [(''a'', PDict [(''y'', PNum 2)])] t2) s) ''a''
      = Some (PDict (AList.update ''y'' (PNum 2) d1))"
    by (simp add: get_context_update_partial s1 c1 update_conv')
  moreover from x have "map_of (AList.update ''y'' (PNum 2) d1) ''x'' = Some (PNum 1)"
    "map_of (AList.update ''y'' (PNum 2) d1) ''y'' = Some (PNum 2)"
    by (simp_all add: update_conv')
  ultimately show "\<exists>d. map_of (get_context
             (update_in_memory
                (update_in_memory cm s [(''a'', PDict [(''x'', PNum 1)])] t1)
                s [(''a'', PDict [(''y'', PNum 2)])] t2) s) ''a'' = Some (PDict d)
          \<and> map_of d ''x'' = Some (PNum 1) \<and> map_of d ''y'' = Some (PNum 2)"
    by blast
next
  assume "map_of (context_store cm) s = None"
  then show "get_context
          (update_in_memory
             (update_in_memory cm s [(''a'', PDict [(''x'', PNum 1)])] t1)
             s [(''a'', PDict [(''y'', PNum 2)])] t2) s
        = [(''_timestamp'', PNum t2), (''a'', PDict [(''x'', PNum 1), (''y'', PNum 2)])]"
    by (simp add: get_context_update_partial store_update_partial)
qed

lemma update_in_memory_deep_merge_example:
  "distinct (map fst [(''a'', PDict [(''b'', PDict [(''y'', PNum 2)])])])
   \<and> map_of (context_store empty_manager) ''s1'' = None
   \<and> map_of (recursive_update
         [(''a'', PDict [(''b'', PDict [(''x'', PNum 1)]), (''c'', PNum 3)])]
         [(''a'', PDict [(''b'', PDict [(''y'', PNum 2)])])]) ''a''
       = Some (PDict [(''b'', PDict [(''x'', PNum 1), (''y'', PNum 2)]), (''c'', PNum 3)])
   \<and> get_context
         (update_in_memory
            (update_in_memory empty_manager ''s1'' [(''a'', PDict [(''x'', PNum 1)])] 10)
            ''s1'' [(''a'', PDict [(''y'', PNum 2)])] 20) ''s1''
       = [(''_timestamp'', PNum 20), (''a'', PDict [(''x'', PNum 1), (''y'', PNum 2)])]"
  using update_in_memory_deep_merge [of empty_manager "''s1''" "[]" 10
      "[(''a'', PDict [(''b'', PDict [(''y'', PNum 2)])])]"
      "[(''a'', PDict [(''b'', PDict [(''x'', PNum 1)]), (''c'', PNum 3)])]" "''a''"
      "''s1''" 10 20]
  by (simp add: empty_manager_def)

text \<open>
  On the Redis backend \<open>get_context\<close> returns strings only, whatever the client
  stores, and an update leaves the manager on that backend.
\<close>

lemma redis_get_context_strings:
  "map_of (redis_get_context rcm session_id) key \<noteq> Some (PDict d)"
proof -
  have strings: "map_of (map (\<lambda>(k, v). (k, PStr v)) h) key = map_option PStr (map_of h key)"
    for h :: redis_hash
    by (induction h) auto
  show ?thesis
    unfolding redis_get_context_def strings
    by (cases "map_of (hgetall (redis_client rcm) session_id) key") simp_all
qed

lemma update_partial_context_in_memory:
  "update_partial_context encode (InMemory cm) session_id partial_context now
     = (InMemory (update_in_memory cm session_id partial_context now), None)
   \<and> get_context_backend (InMemory cm) session_id = get_context cm session_id"
  by (simp add: update_partial_context_def get_context_backend_def)

lemma update_partial_context_redis:
  "\<exists>rcm'. fst (update_partial_context encode (Redis rcm) session_id partial_context now)
      = Redis rcm'"
  by (simp add: update_partial_context_def split: prod.splits)

text \<open>
  C7 on the Redis backend, for every client encoding and every state of the server. After
  \<open>update_partial_context(s, {"a": {"x": 1}})\<close> and
  \<open>update_partial_context(s, {"a": {"y": 2}})\<close>, whether or not a call raised, the
  context that \<open>get_context\<close> returns does not hold a dictionary under \<open>a\<close>, so not
  \<open>{"x": 1, "y": 2}\<close>: the branch reads the stored context back as strings, and
  \<open>recursive_update\<close> finds no dictionary to merge with.
\<close>

theorem update_partial_context_redis_no_merge:
  "\<forall>d. map_of (get_context_backend
       (fst (update_partial_context encode
          (fst (update_partial_context encode (Redis rcm) s
                  [(''a'', PDict [(''x'', PNum 1)])] t1))
          s [(''a'', PDict [(''y'', PNum 2)])] t2)) s) ''a''
     \<noteq> Some (PDict d)"
proof
  fix d
  obtain rcm1 where r1: "fst (update_partial_context encode (Redis rcm) s
      [(''a'', PDict [(''x'', PNum 1)])] t1) = Redis rcm1"
    using update_partial_context_redis by blast
  obtain rcm2 where r2: "fst (update_partial_context encode (Redis rcm1) s
      [(''a'', PDict [(''y'', PNum 2)])] t2) = Redis rcm2"
    using update_partial_context_redis by blast
  show "map_of (get_context_backend
       (fst (update_partial_context encode
          (fst (update_partial_context encode (Redis rcm) s
                  [(''a'', PDict [(''x'', PNum 1)])] t1))
          s [(''a'', PDict [(''y'', PNum 2)])] t2)) s) ''a''
     \<noteq> Some (PDict d)"
    unfolding r1 r2 by (simp add: get_context_backend_def redis_get_context_strings)
qed

subsection \<open>Garbage collection\<close>

text \<open>
  The sweep collects the sessions that are expired, in the order of the store; deleting
  them removes exactly these sessions, and calls every listener once for each of them
  when event emission is enabled.
\<close>

lemma expired_sessions_filter:
  assumes "expired_sessions cm now store = Some ids"
  shows "ids = map fst (filter (\<lambda>(session_id, context). session_expired cm now context = Some True) store)"
  using assms
proof (induction store arbitrary: ids)
  case Nil
  then show ?case by simp
next
  case (Cons sc store)
  obtain s c where sc: "sc = (s, c)" by (cases sc)
  from Cons.prems sc obtain e rest where e: "session_expired cm now c = Some e"
    and rest: "expired_sessions cm now store = Some rest"
    and ids: "ids = (if e then s # rest else rest)"
    by (auto split: option.splits)
  from Cons.IH [OF rest] e ids show ?case by (simp add: sc)
qed

lemma expired_sessions_total:
  assumes "\<forall>(session_id, context) \<in> set store. session_expired cm now context \<noteq> None"
  shows "\<exists>ids. expired_sessions cm now store = Some ids"
  using assms by (induction store) auto

lemma collect_sessions_store:
  "map_of (context_store (collect_sessions cm ids)) session_id
     = (if session_id \<in> set ids then None else map_of (context_store cm) session_id)"
proof (induction ids arbitrary: cm)
  case Nil
  show ?case by simp
next
  case (Cons i ids)
  show ?case
    by (simp add: Cons.IH emit_event_def delete_conv')
qed

lemma collect_sessions_settings:
  "event_emission_enabled (collect_sessions cm ids) = event_emission_enabled cm
   \<and> event_listeners (collect_sessions cm ids) = event_listeners cm
   \<and> session_expiration (collect_sessions cm ids) = session_expiration cm"
  by (induction ids arbitrary: cm) (simp_all add: emit_event_def)

lemma collect_sessions_delivered:
  "delivered (collect_sessions cm ids)
     = delivered cm @ concat (map (\<lambda>session_id.
         if event_emission_enabled cm
         then map (\<lambda>callback. (callback, session_id, ''garbage_collected'', PNone)) (event_listeners cm)
         else []) ids)"
proof (induction ids arbitrary: cm)
  case Nil
  show ?case by simp
next
  case (Cons i ids)
  show ?case by (simp add: Cons.IH emit_event_def)
qed

lemma gc_events_about:
  assumes "distinct ids"
  shows "filter (event_of_session session_id) (concat (map (\<lambda>s.
         if enabled then map (\<lambda>callback. (callback, s, ''garbage_collected'', PNone)) ls else []) ids))
     = (if enabled \<and> session_id \<in> set ids
        then map (\<lambda>callback. (callback, session_id, ''garbage_collected'', PNone)) ls else [])"
  using assms
proof (induction ids)
  case Nil
  show ?case by simp
next
  case (Cons i ids)
  have one: "filter (event_of_session session_id) (map (\<lambda>callback. (callback, i, ''garbage_collected'', PNone)) ls)
      = (if i = session_id then map (\<lambda>callback. (callback, i, ''garbage_collected'', PNone)) ls else [])"
    by (induction ls) (auto simp: event_of_session_def)
  from Cons.prems have "distinct ids" "i \<notin> set ids" by simp_all
  with Cons.IH one show ?case by auto
qed

text \<open>
  C8, as the code has it. In a store (a dictionary: distinct session names) whose
  sessions have numeric timestamps, a sweep at the time \<open>now\<close> succeeds. A session
  whose timestamp is older than the configured expiration is absent afterwards, reads of
  it return the empty dictionary, and the calls about it made by the sweep are: one
  \<open>garbage_collected\<close> call to every registered listener when event emission is
  enabled, none when it is disabled. A session within the expiration is unchanged and
  no listener is called about it.
\<close>

theorem gc_sweep_expires:
  assumes dist: "distinct (map fst (context_store cm))"
    and stamps: "\<forall>(session_id, context) \<in> set (context_store cm).
        \<exists>t. dict_get context ''_timestamp'' (PNum now) = PNum t"
  shows "\<exists>cm' new. gc_sweep cm now = Some cm' \<and> delivered cm' = delivered cm @ new
    \<and> (\<forall>session_id context t.
          map_of (context_store cm) session_id = Some context
          \<and> dict_get context ''_timestamp'' (PNum now) = PNum t \<longrightarrow>
          (if now - t > session_expiration cm
           then map_of (context_store cm') session_id = None
                \<and> get_context cm' session_id = []
                \<and> filter (event_of_session session_id) new
                    = (if event_emission_enabled cm
                       then map (\<lambda>callback. (callback, session_id, ''garbage_collected'', PNone))
                              (event_listeners cm)
                       else [])
           else map_of (context_store cm') session_id = Some context
                \<and> filter (event_of_session session_id) new = []))"
proof -
  from stamps have "\<forall>(session_id, context) \<in> set (context_store cm).
      session_expired cm now context \<noteq> None"
    by (auto simp: session_expired_def)
  from expired_sessions_total [OF this] obtain ids
    where ids: "expired_sessions cm now (context_store cm) = Some ids" by blast
  define new where "new = concat (map (\<lambda>session_id.
         if event_emission_enabled cm
         then map (\<lambda>callback. (callback, session_id, ''garbage_collected'', PNone)) (event_listeners cm)
         else []) ids)"
  define cm' where "cm' = collect_sessions cm ids"
  from ids have sweep: "gc_sweep cm now = Some cm'" by (simp add: gc_sweep_def cm'_def)
  have del: "delivered cm' = delivered cm @ new"
    unfolding cm'_def new_def by (rule collect_sessions_delivered)
  have idsf: "ids = map fst (filter (\<lambda>(session_id, context).
      session_expired cm now context = Some True) (context_store cm))"
    by (rule expired_sessions_filter [OF ids])
  from dist have dids: "distinct ids" unfolding idsf by (rule distinct_map_filter)
  have mem: "session_id \<in> set ids \<longleftrightarrow> now - t > session_expiration cm"
    if "map_of (context_store cm) session_id = Some sctx"
      "dict_get sctx ''_timestamp'' (PNum now) = PNum t" for session_id sctx t
  proof -
    from that(1) have inst: "(session_id, sctx) \<in> set (context_store cm)"
      by (rule map_of_SomeD)
    have e: "session_expired cm now sctx = Some (now - t > session_expiration cm)"
      by (simp add: session_expired_def that(2))
    show ?thesis
    proof
      assume "session_id \<in> set ids"
      then obtain c where c: "(session_id, c) \<in> set (context_store cm)"
        and ec: "session_expired cm now c = Some True" unfolding idsf by auto
      from dist inst c have "c = sctx" by (meson eq_key_imp_eq_value)
      with ec e show "now - t > session_expiration cm" by simp
    next
      assume "now - t > session_expiration cm"
      with e inst show "session_id \<in> set ids" unfolding idsf by force
    qed
  qed
  have main: "if now - t > session_expiration cm
      then map_of (context_store cm') session_id = None
           \<and> get_context cm' session_id = []
           \<and> filter (event_of_session session_id) new
               = (if event_emission_enabled cm
                  then map (\<lambda>callback. (callback, session_id, ''garbage_collected'', PNone))
                         (event_listeners cm)
                  else [])
      else map_of (context_store cm') session_id = Some sctx
           \<and> filter (event_of_session session_id) new = []"
    if "map_of (context_store cm) session_id = Some sctx"
      "dict_get sctx ''_timestamp'' (PNum now) = PNum t" for session_id sctx t
    using mem [OF that] that(1) gc_events_about [OF dids, of session_id "event_emission_enabled cm"
        "event_listeners cm"]
    by (simp add: cm'_def collect_sessions_store get_context_def new_def)
  from sweep del main show ?thesis by blast
qed

theorem gc_sweep_expires_witness:
  "distinct (map fst (context_store loud_manager))
   \<and> gc_sweep loud_manager 4000
       = Some (loud_manager\<lparr>context_store := [(''recent'', [(''_timestamp'', PNum 3900)])],
            delivered := [(''audit'', ''old'', ''garbage_collected'', PNone)]\<rparr>)"
proof -
  have h1: "distinct (map fst (context_store loud_manager))"
    by (simp add: loud_manager_def quiet_manager_def empty_manager_def)
  have h2: "\<forall>(session_id, context) \<in> set (context_store loud_manager).
      \<exists>t. dict_get context ''_timestamp'' (PNum 4000) = PNum t"
    by (simp add: loud_manager_def quiet_manager_def empty_manager_def dict_get_def)
  show ?thesis
    using h1 gc_sweep_expires [OF h1 h2]
    by (simp add: gc_sweep_def session_expired_def dict_get_def emit_event_def loud_manager_def
        quiet_manager_def empty_manager_def)
qed

text \<open>
  C8 fails as stated: with the default settings event emission is off. The session
  written at time 0 is expired at time 4000 and the sweep deletes it, but the registered
  listener is not called: no event is emitted for it.
\<close>

theorem gc_sweep_event_counterexample:
  "event_listeners quiet_manager = [''audit'']
   \<and> map_of (context_store quiet_manager) ''old''
       = Some [(''_timestamp'', PNum 0), (''user'', PStr ''u1'')]
   \<and> 4000 - 0 > session_expiration quiet_manager
   \<and> map_option context_store (gc_sweep quiet_manager 4000)
       = Some [(''recent'', [(''_timestamp'', PNum 3900)])]
   \<and> map_option delivered (gc_sweep quiet_manager 4000) = Some []"
  by (simp add: gc_sweep_def session_expired_def dict_get_def emit_event_def quiet_manager_def
      empty_manager_def)

section \<open>Properties of tool discovery\<close>

text \<open>
  Learning leaves the patterns as they are or appends one pattern, for the recorded
  tool, intent and entity keys, that matches no stored pattern. Recording an execution
  leaves the patterns as they are or, for a successful execution, learns on a state with
  the same patterns.
\<close>

lemma learn_tool_pattern_patterns:
  "tool_patterns (learn_tool_pattern disc tn ctx now) = tool_patterns disc
   \<or> (\<exists>p. tool_patterns (learn_tool_pattern disc tn ctx now) = tool_patterns disc @ [p]
         \<and> tool_name p = tn \<and> pattern_intent p = intent_of ctx
         \<and> keys_of (context_entities ctx) = Some (entities_present p)
         \<and> \<not> list_ex (pattern_matches tn (intent_of ctx) (entities_present p))
               (tool_patterns disc))"
  by (auto simp: learn_tool_pattern_def Let_def split: option.splits)

lemma learn_tool_pattern_duplicate:
  assumes "keys_of (context_entities ctx) = Some ks"
    and "list_ex (pattern_matches tn (intent_of ctx) ks) (tool_patterns disc)"
  shows "learn_tool_pattern disc tn ctx now = disc"
  using assms by (auto simp: learn_tool_pattern_def Let_def split: option.splits)

lemma record_tool_execution_cases:
  assumes keep: "\<And>d. tool_patterns d = tool_patterns disc \<Longrightarrow> Q d"
    and learn: "\<And>d. s \<Longrightarrow> tool_patterns d = tool_patterns disc
        \<Longrightarrow> Q (learn_tool_pattern d tn ctx now)"
  shows "Q (record_tool_execution disc tn ctx s e now)"
proof (cases "s")
  case False
  show ?thesis unfolding record_tool_execution_def Let_def using False
    by (auto split: option.splits intro: keep)
next
  case True
  show ?thesis unfolding record_tool_execution_def Let_def using True
    by (auto split: option.splits intro: keep learn)
qed

lemma record_tool_execution_patterns:
  "tool_patterns (record_tool_execution disc tn ctx s e now) = tool_patterns disc
   \<or> (s \<and> (\<exists>disc1. tool_patterns disc1 = tool_patterns disc
          \<and> tool_patterns (record_tool_execution disc tn ctx s e now)
              = tool_patterns (learn_tool_pattern disc1 tn ctx now)))"
  by (rule record_tool_execution_cases) auto

lemma record_tool_execution_step:
  "tool_patterns (record_tool_execution disc tn ctx s e now) = tool_patterns disc
   \<or> (s \<and> (\<exists>p. tool_patterns (record_tool_execution disc tn ctx s e now)
                  = tool_patterns disc @ [p]
         \<and> tool_name p = tn \<and> pattern_intent p = intent_of ctx
         \<and> keys_of (context_entities ctx) = Some (entities_present p)
         \<and> \<not> list_ex (pattern_matches tn (intent_of ctx) (entities_present p))
               (tool_patterns disc)))"
proof -
  from record_tool_execution_patterns [of disc tn ctx s e now]
  consider "tool_patterns (record_tool_execution disc tn ctx s e now) = tool_patterns disc"
    | disc1 where "s" "tool_patterns disc1 = tool_patterns disc"
      "tool_patterns (record_tool_execution disc tn ctx s e now)
         = tool_patterns (learn_tool_pattern disc1 tn ctx now)"
    by blast
  then show ?thesis
  proof cases
    case 1
    then show ?thesis by simp
  next
    case 2
    with learn_tool_pattern_patterns [of disc1 tn ctx now] show ?thesis by auto
  qed
qed

lemma count_step:
  assumes "\<not> list_ex (pattern_matches (tool_name p) (pattern_intent p) (entities_present p)) ps"
  shows "length (filter (pattern_matches tn i ks) (ps @ [p]))
     \<le> max 1 (length (filter (pattern_matches tn i ks) ps))"
proof (cases "pattern_matches tn i ks p")
  case False
  then show ?thesis by simp
next
  case True
  have "filter (pattern_matches tn i ks) ps = []"
  proof (rule ccontr)
    assume "filter (pattern_matches tn i ks) ps \<noteq> []"
    then obtain q where "q \<in> set ps" "pattern_matches tn i ks q"
      by (auto simp: filter_empty_conv)
    with True have "q \<in> set ps"
      "pattern_matches (tool_name p) (pattern_intent p) (entities_present p) q"
      by (simp_all add: pattern_matches_def)
    with assms show False by (auto simp: list_ex_iff)
  qed
  with True show ?thesis by simp
qed

lemma record_tool_execution_count:
  "length (filter (pattern_matches tn' i ks)
       (tool_patterns (record_tool_execution disc tn ctx s e now)))
     \<le> max 1 (length (filter (pattern_matches tn' i ks) (tool_patterns disc)))"
proof -
  from record_tool_execution_step [of disc tn ctx s e now]
  consider "tool_patterns (record_tool_execution disc tn ctx s e now) = tool_patterns disc"
    | p where "tool_patterns (record_tool_execution disc tn ctx s e now)
                  = tool_patterns disc @ [p]"
      "tool_name p = tn" "pattern_intent p = intent_of ctx"
      "\<not> list_ex (pattern_matches tn (intent_of ctx) (entities_present p))
               (tool_patterns disc)"
    by blast
  then show ?thesis
  proof cases
    case 1
    then show ?thesis by simp
  next
    case 2
    from 2(2,3,4) have "\<not> list_ex (pattern_matches (tool_name p) (pattern_intent p)
        (entities_present p)) (tool_patterns disc)" by simp
    from count_step [OF this] 2(1) show ?thesis by simp
  qed
qed

lemma record_repeatedly_count:
  "length (filter (pattern_matches tn' i ks)
       (tool_patterns (record_repeatedly disc tn ctx calls)))
     \<le> max 1 (length (filter (pattern_matches tn' i ks) (tool_patterns disc)))"
proof (induction calls arbitrary: disc)
  case Nil
  show ?case by simp
next
  case (Cons c calls)
  obtain s e now where c: "c = (s, e, now)" by (cases c)
  have "length (filter (pattern_matches tn' i ks)
       (tool_patterns (record_repeatedly disc tn ctx (c # calls))))
     \<le> max 1 (length (filter (pattern_matches tn' i ks)
         (tool_patterns (record_tool_execution disc tn ctx s e now))))"
    using Cons.IH [of "record_tool_execution disc tn ctx s e now"] by (simp add: c)
  also have "\<dots> \<le> max 1 (max 1 (length (filter (pattern_matches tn' i ks) (tool_patterns disc))))"
    using record_tool_execution_count [of tn' i ks disc tn ctx s e now] by simp
  finally show ?case by simp
qed

lemma record_tool_execution_duplicate:
  assumes "keys_of (context_entities ctx) = Some ks"
    and "list_ex (pattern_matches tn (intent_of ctx) ks) (tool_patterns disc)"
  shows "tool_patterns (record_tool_execution disc tn ctx s e now) = tool_patterns disc"
proof -
  from record_tool_execution_patterns [of disc tn ctx s e now]
  consider "tool_patterns (record_tool_execution disc tn ctx s e now) = tool_patterns disc"
    | disc1 where "tool_patterns disc1 = tool_patterns disc"
      "tool_patterns (record_tool_execution disc tn ctx s e now)
         = tool_patterns (learn_tool_pattern disc1 tn ctx now)"
    by blast
  then show ?thesis
  proof cases
    case 1
    then show ?thesis .
  next
    case 2
    from assms(2) 2(1) have "list_ex (pattern_matches tn (intent_of ctx) ks) (tool_patterns disc1)"
      by simp
    from learn_tool_pattern_duplicate [OF assms(1) this] 2 show ?thesis by simp
  qed
qed

text \<open>
  C9. A recorded execution that did not succeed leaves the stored patterns unchanged.
  Any recorded execution leaves them unchanged or, when it succeeded, appends one
  pattern for its tool name, intent and entity keys, and only when no stored pattern
  has that combination; with such a pattern stored, the call leaves the list as it is,
  nothing overwritten (and the function has no error result). So over any sequence of
  calls for one tool and context the number of stored patterns of any combination stays
  at most one, or what it was in the stored document, and at most one from an empty
  list of patterns.
\<close>

theorem pattern_learning_idempotent:
  "(\<not> s \<longrightarrow> tool_patterns (record_tool_execution disc tn ctx s e now) = tool_patterns disc)
   \<and> (tool_patterns (record_tool_execution disc tn ctx s e now) = tool_patterns disc
        \<or> (s \<and> (\<exists>p. tool_patterns (record_tool_execution disc tn ctx s e now)
                       = tool_patterns disc @ [p]
              \<and> tool_name p = tn \<and> pattern_intent p = intent_of ctx
              \<and> keys_of (context_entities ctx) = Some (entities_present p)
              \<and> \<not> list_ex (pattern_matches tn (intent_of ctx) (entities_present p))
                    (tool_patterns disc))))
   \<and> (\<forall>ks. keys_of (context_entities ctx) = Some ks
          \<and> list_ex (pattern_matches tn (intent_of ctx) ks) (tool_patterns disc)
          \<longrightarrow> tool_patterns (record_tool_execution disc tn ctx s e now) = tool_patterns disc)
   \<and> length (filter (pattern_matches tn' i ks')
         (tool_patterns (record_repeatedly disc tn ctx calls)))
       \<le> max 1 (length (filter (pattern_matches tn' i ks') (tool_patterns disc)))
   \<and> (tool_patterns disc = [] \<longrightarrow>
        length (filter (pattern_matches tn' i ks')
          (tool_patterns (record_repeatedly disc tn ctx calls))) \<le> 1)"
proof (intro conjI impI allI)
  assume "\<not> s"
  with record_tool_execution_patterns [of disc tn ctx s e now]
  show "tool_patterns (record_tool_execution disc tn ctx s e now) = tool_patterns disc"
    by blast
next
  show "tool_patterns (record_tool_execution disc tn ctx s e now) = tool_patterns disc
        \<or> (s \<and> (\<exists>p. tool_patterns (record_tool_execution disc tn ctx s e now)
                       = tool_patterns disc @ [p]
              \<and> tool_name p = tn \<and> pattern_intent p = intent_of ctx
              \<and> keys_of (context_entities ctx) = Some (entities_present p)
              \<and> \<not> list_ex (pattern_matches tn (intent_of ctx) (entities_present p))
                    (tool_patterns disc)))"
    by (rule record_tool_execution_step)
next
  fix ks
  assume "keys_of (context_entities ctx) = Some ks
          \<and> list_ex (pattern_matches tn (intent_of ctx) ks) (tool_patterns disc)"
  then show "tool_patterns (record_tool_execution disc tn ctx s e now) = tool_patterns disc"
    using record_tool_execution_duplicate by blast
next
  show "length (filter (pattern_matches tn' i ks')
         (tool_patterns (record_repeatedly disc tn ctx calls)))
       \<le> max 1 (length (filter (pattern_matches tn' i ks') (tool_patterns disc)))"
    by (rule record_repeatedly_count)
next
  assume "tool_patterns disc = []"
  with record_repeatedly_count [of tn' i ks' disc tn ctx calls]
  show "length (filter (pattern_matches tn' i ks')
          (tool_patterns (record_repeatedly disc tn ctx calls))) \<le> 1"
    by simp
qed

theorem pattern_learning_idempotent_witness:
  "tool_patterns new_discovery = []
   \<and> keys_of (context_entities test_execution) = Some [''entity1'']
   \<and> tool_patterns (record_tool_execution new_discovery ''mock_tool'' test_execution False 0.5 1)
       = []
   \<and> tool_patterns
         (record_repeatedly new_discovery ''mock_tool'' test_execution [(True, 0.5, 1), (True, 0.7, 2)])
       = [\<lparr>tool_name = ''mock_tool'', pattern_intent = ''test_intent'',
            entities_present = [''entity1''], metadata_keys = [''key1''], learned_at = 1\<rparr>]"
  using pattern_learning_idempotent [where s = False and disc = new_discovery
      and tn = "''mock_tool''" and ctx = test_execution and e = "0.5" and now = 1
      and tn' = "''mock_tool''" and i = "''test_intent''" and ks' = "[''entity1'']"
      and calls = "[(True, 0.5, 1), (True, 0.7, 2)]"]
  by (simp add: new_discovery_def test_execution_def record_tool_execution_def
      learn_tool_pattern_def keys_of_def intent_of_def new_stats_def pattern_matches_def Let_def)

end
